theory Spec2Isabelle
  imports Complex_Main "HOL-Library.Sublist" "HOL-Library.AList"
begin

section \<open>JavaScript strings\<close>

text \<open>
  A JavaScript string is modelled as a list of 8-bit characters, read as the UTF-16 code
  units U+0000 to U+00FF. Within that range the case mappings, the white space of
  \<^verbatim>\<open>trim\<close> and of the class \<^verbatim>\<open>\s\<close>, and the word characters of
  \<^verbatim>\<open>\b\<close> are those of ECMAScript. Numbers are modelled as exact reals: the
  rounding of IEEE doubles is not part of the model.
\<close>

definition bslash :: char where
  "bslash = CHR 0x5C"

definition newline :: char where
  "newline = CHR 0x0A"

definition in_range :: "char \<Rightarrow> char \<Rightarrow> char \<Rightarrow> bool" where
  "in_range lo hi c = ((of_char lo :: nat) \<le> of_char c \<and> (of_char c :: nat) \<le> of_char hi)"

text \<open>White space and line terminators: TAB, LF, VT, FF, CR, SPACE and NBSP.\<close>

definition is_space :: "char \<Rightarrow> bool" where
  "is_space c = (c \<in> set [CHR 0x09, CHR 0x0A, CHR 0x0B, CHR 0x0C, CHR 0x0D, CHR 0x20, CHR 0xA0])"

definition is_digit :: "char \<Rightarrow> bool" where
  "is_digit c = in_range CHR ''0'' CHR ''9'' c"

definition is_word :: "char \<Rightarrow> bool" where
  "is_word c = (in_range CHR ''a'' CHR ''z'' c \<or> in_range CHR ''A'' CHR ''Z'' c \<or> is_digit c
     \<or> c = CHR ''_'')"

definition upper_chars :: string where
  "upper_chars = ''ABCDEFGHIJKLMNOPQRSTUVWXYZ'' @
     [CHR 0xC0, CHR 0xC1, CHR 0xC2, CHR 0xC3, CHR 0xC4, CHR 0xC5, CHR 0xC6, CHR 0xC7,
      CHR 0xC8, CHR 0xC9, CHR 0xCA, CHR 0xCB, CHR 0xCC, CHR 0xCD, CHR 0xCE, CHR 0xCF,
      CHR 0xD0, CHR 0xD1, CHR 0xD2, CHR 0xD3, CHR 0xD4, CHR 0xD5, CHR 0xD6,
      CHR 0xD8, CHR 0xD9, CHR 0xDA, CHR 0xDB, CHR 0xDC, CHR 0xDD, CHR 0xDE]"

definition lower_chars :: string where
  "lower_chars = ''abcdefghijklmnopqrstuvwxyz'' @
     [CHR 0xE0, CHR 0xE1, CHR 0xE2, CHR 0xE3, CHR 0xE4, CHR 0xE5, CHR 0xE6, CHR 0xE7,
      CHR 0xE8, CHR 0xE9, CHR 0xEA, CHR 0xEB, CHR 0xEC, CHR 0xED, CHR 0xEE, CHR 0xEF,
      CHR 0xF0, CHR 0xF1, CHR 0xF2, CHR 0xF3, CHR 0xF4, CHR 0xF5, CHR 0xF6,
      CHR 0xF8, CHR 0xF9, CHR 0xFA, CHR 0xFB, CHR 0xFC, CHR 0xFD, CHR 0xFE]"

definition toLowerChar :: "char \<Rightarrow> char" where
  "toLowerChar c = (case map_of (zip upper_chars lower_chars) c of Some d \<Rightarrow> d | None \<Rightarrow> c)"

text \<open>
  The canonical form of a character under the flag \<^verbatim>\<open>i\<close>: its upper case when that
  is a single code unit of the modelled range, the character itself otherwise.
\<close>

definition toUpperChar :: "char \<Rightarrow> char" where
  "toUpperChar c = (case map_of (zip lower_chars upper_chars) c of Some d \<Rightarrow> d | None \<Rightarrow> c)"

definition toLowerCase :: "string \<Rightarrow> string" where
  "toLowerCase s = map toLowerChar s"

definition trim :: "string \<Rightarrow> string" where
  "trim s = rev (dropWhile is_space (rev (dropWhile is_space s)))"

text \<open>\<^verbatim>\<open>s.includes(sub)\<close>: \<open>sub\<close> occurs in \<open>s\<close> as a contiguous substring.\<close>

fun includes_str :: "string \<Rightarrow> string \<Rightarrow> bool" where
  "includes_str [] sub = (sub = [])"
| "includes_str (x # xs) sub = (prefix sub (x # xs) \<or> includes_str xs sub)"

text \<open>\<^verbatim>\<open>s.split(c)\<close> for a one-character separator: never the empty list.\<close>

fun split :: "char \<Rightarrow> string \<Rightarrow> string list" where
  "split c [] = [[]]"
| "split c (x # xs) =
     (if x = c then [] # split c xs
      else (case split c xs of [] \<Rightarrow> [[x]] | l # ls \<Rightarrow> (x # l) # ls))"

text \<open>\<^verbatim>\<open>parts.join(' ')\<close>.\<close>

fun join :: "string list \<Rightarrow> string" where
  "join [] = []"
| "join [p] = p"
| "join (p # ps) = p @ '' '' @ join ps"

fun show_nat :: "nat \<Rightarrow> string" where
  "show_nat n = (if n < 10 then [''0123456789'' ! n]
                 else show_nat (n div 10) @ [''0123456789'' ! (n mod 10)])"

section \<open>Regular expressions\<close>

text \<open>
  The fragment of ECMAScript regular expressions that the program uses, as abstract syntax.
  \<open>Chr c\<close> is the pattern character \<open>c\<close>, \<open>Esc c\<close> the identity escape
  \<^verbatim>\<open>\c\<close>; \<open>Rep lo hi r\<close> is a greedy quantifier with at least \<open>lo\<close> and at
  most \<open>hi\<close> iterations (\<open>None\<close>: unbounded); \<open>Grp n r\<close> is the \<open>n\<close>-th capture
  group and \<open>NGrp r\<close> a group \<^verbatim>\<open>(?:r)\<close>. \<open>rx_source\<close> prints the syntax back to the
  text of the regular expression literal.
\<close>

datatype citem = CChr char | CEsc char | CNl | CRange char char | CSpace | CDigit

datatype rx = Eps | Chr char | Esc char | Dot | Space | Digit | WordB | Bol | Eol
  | Cls bool "citem list" | Seq rx rx | Alt rx rx | Rep nat "nat option" rx
  | Grp nat rx | NGrp rx

fun seqs :: "rx list \<Rightarrow> rx" where
  "seqs [] = Eps"
| "seqs [r] = r"
| "seqs (r # rs) = Seq r (seqs rs)"

definition lit :: "string \<Rightarrow> rx" where
  "lit s = seqs (map Chr s)"

fun citem_source :: "citem \<Rightarrow> string" where
  "citem_source (CChr c) = [c]"
| "citem_source (CEsc c) = [bslash, c]"
| "citem_source CNl = [bslash, CHR ''n'']"
| "citem_source (CRange a b) = [a, CHR ''-'', b]"
| "citem_source CSpace = [bslash, CHR ''s'']"
| "citem_source CDigit = [bslash, CHR ''d'']"

fun quant_source :: "nat \<Rightarrow> nat option \<Rightarrow> string" where
  "quant_source 0 None = ''*''"
| "quant_source (Suc 0) None = ''+''"
| "quant_source 0 (Some (Suc 0)) = ''?''"
| "quant_source lo None = ''{'' @ show_nat lo @ '',}''"
| "quant_source lo (Some hi) =
     (if lo = hi then ''{'' @ show_nat lo @ ''}''
      else ''{'' @ show_nat lo @ '','' @ show_nat hi @ ''}'')"

fun rx_source :: "rx \<Rightarrow> string" where
  "rx_source Eps = []"
| "rx_source (Chr c) = [c]"
| "rx_source (Esc c) = [bslash, c]"
| "rx_source Dot = ''.''"
| "rx_source Space = [bslash, CHR ''s'']"
| "rx_source Digit = [bslash, CHR ''d'']"
| "rx_source WordB = [bslash, CHR ''b'']"
| "rx_source Bol = ''^''"
| "rx_source Eol = ''$''"
| "rx_source (Cls neg items) =
     ''['' @ (if neg then ''^'' else []) @ concat (map citem_source items) @ '']''"
| "rx_source (Seq a b) = rx_source a @ rx_source b"
| "rx_source (Alt a b) = rx_source a @ ''|'' @ rx_source b"
| "rx_source (Rep lo hi r) = rx_source r @ quant_source lo hi"
| "rx_source (Grp n r) = ''('' @ rx_source r @ '')''"
| "rx_source (NGrp r) = ''(?:'' @ rx_source r @ '')''"

text \<open>A regular expression object: its syntax and whether the flag \<^verbatim>\<open>i\<close> is set.\<close>

record RegExp =
  node :: rx
  flag_i :: bool

definition regex :: "rx \<Rightarrow> string \<Rightarrow> RegExp" where
  "regex r fl = \<lparr>node = r, flag_i = (CHR ''i'' \<in> set fl)\<rparr>"

definition source :: "RegExp \<Rightarrow> string" where
  "source p = rx_source (node p)"

definition flags :: "RegExp \<Rightarrow> string" where
  "flags p = (if flag_i p then ''i'' else [])"

definition toString :: "RegExp \<Rightarrow> string" where
  "toString p = ''/'' @ source p @ ''/'' @ flags p"

subsection \<open>Matching\<close>

text \<open>
  Matching follows the backtracking semantics of ECMAScript. A state is the text before
  the current position (most recent character first), the text from the position on, and
  the captures made so far. \<open>rx_m ic r st\<close> lists, in the order in which the backtracking
  matcher tries them, the states in which a match of \<open>r\<close> started at \<open>st\<close> can end; the
  head of the list is the match that the engine reports. A quantifier refuses an
  iteration that consumes nothing once its lower bound is met. No capture group of the
  program stands under a quantifier, so captures are never reset.
\<close>

fun citem_has :: "citem \<Rightarrow> char \<Rightarrow> bool" where
  "citem_has (CChr c) x = (x = c)"
| "citem_has (CEsc c) x = (x = c)"
| "citem_has CNl x = (x = newline)"
| "citem_has (CRange a b) x = in_range a b x"
| "citem_has CSpace x = is_space x"
| "citem_has CDigit x = is_digit x"

text \<open>The characters with the same canonical form as \<open>x\<close>.\<close>

definition case_variants :: "char \<Rightarrow> char list" where
  "case_variants x = [x, toUpperChar x, toLowerChar x]"

definition citem_matches :: "bool \<Rightarrow> citem \<Rightarrow> char \<Rightarrow> bool" where
  "citem_matches ic i x = (if ic then list_ex (citem_has i) (case_variants x) else citem_has i x)"

definition cls_matches :: "bool \<Rightarrow> bool \<Rightarrow> citem list \<Rightarrow> char \<Rightarrow> bool" where
  "cls_matches ic neg items x = (neg \<noteq> list_ex (\<lambda>i. citem_matches ic i x) items)"

definition chr_matches :: "bool \<Rightarrow> char \<Rightarrow> char \<Rightarrow> bool" where
  "chr_matches ic c x = (if ic then toUpperChar c = toUpperChar x else c = x)"

type_synonym mstate = "string \<times> string \<times> (nat \<times> string) list"

definition before :: "mstate \<Rightarrow> string" where
  "before st = fst st"

definition rest :: "mstate \<Rightarrow> string" where
  "rest st = fst (snd st)"

definition captures :: "mstate \<Rightarrow> (nat \<times> string) list" where
  "captures st = snd (snd st)"

definition step1 :: "(char \<Rightarrow> bool) \<Rightarrow> mstate \<Rightarrow> mstate list" where
  "step1 P st = (case rest st of [] \<Rightarrow> []
     | x # xs \<Rightarrow> if P x then [(x # before st, xs, captures st)] else [])"

definition at_boundary :: "mstate \<Rightarrow> bool" where
  "at_boundary st =
     ((case before st of [] \<Rightarrow> False | x # _ \<Rightarrow> is_word x) \<noteq>
      (case rest st of [] \<Rightarrow> False | y # _ \<Rightarrow> is_word y))"

definition consumed :: "mstate \<Rightarrow> mstate \<Rightarrow> string" where
  "consumed st st' = take (length (rest st) - length (rest st')) (rest st)"

definition dec :: "nat option \<Rightarrow> nat option" where
  "dec hi = map_option (\<lambda>h. h - 1) hi"

fun weight :: "rx \<Rightarrow> nat" where
  "weight (Seq a b) = Suc (weight a + weight b)"
| "weight (Alt a b) = Suc (weight a + weight b)"
| "weight (Rep lo hi r) = Suc (weight r + lo)"
| "weight (Grp n r) = Suc (weight r)"
| "weight (NGrp r) = Suc (weight r)"
| "weight _ = 0"

function rx_m :: "bool \<Rightarrow> rx \<Rightarrow> mstate \<Rightarrow> mstate list" where
  "rx_m ic Eps st = [st]"
| "rx_m ic (Chr c) st = step1 (chr_matches ic c) st"
| "rx_m ic (Esc c) st = step1 (chr_matches ic c) st"
| "rx_m ic Dot st = step1 (\<lambda>x. x \<noteq> newline \<and> x \<noteq> CHR 0x0D) st"
| "rx_m ic Space st = step1 is_space st"
| "rx_m ic Digit st = step1 is_digit st"
| "rx_m ic WordB st = (if at_boundary st then [st] else [])"
| "rx_m ic Bol st = (if before st = [] then [st] else [])"
| "rx_m ic Eol st = (if rest st = [] then [st] else [])"
| "rx_m ic (Cls neg items) st = step1 (cls_matches ic neg items) st"
| "rx_m ic (Seq a b) st = concat (map (rx_m ic b) (rx_m ic a st))"
| "rx_m ic (Alt a b) st = rx_m ic a st @ rx_m ic b st"
| "rx_m ic (NGrp r) st = rx_m ic r st"
| "rx_m ic (Grp n r) st =
     map (\<lambda>st'. (before st', rest st', AList.update n (consumed st st') (captures st')))
       (rx_m ic r st)"
| "rx_m ic (Rep (Suc lo) hi r) st =
     (if hi = Some 0 then [st]
      else concat (map (rx_m ic (Rep lo (dec hi) r)) (rx_m ic r st)))"
| "rx_m ic (Rep 0 hi r) st =
     (if hi = Some 0 then [st]
      else concat (map (\<lambda>st'. if length (rest st') < length (rest st)
                               then rx_m ic (Rep 0 (dec hi) r) st' else [])
                     (rx_m ic r st)) @ [st])"
  by pat_completeness auto
termination
  by (relation "inv_image (less_than <*lex*> less_than)
        (\<lambda>(ic, r, st). (weight r, length (rest st)))") auto

text \<open>
  The result of a successful match: \<open>m_whole\<close> is \<^verbatim>\<open>match[0]\<close>, and
  \<open>group m n\<close> is \<^verbatim>\<open>match[n]\<close>, \<open>None\<close> when it is undefined.
\<close>

record match =
  m_whole :: string
  m_groups :: "(nat \<times> string) list"

definition group :: "match \<Rightarrow> nat \<Rightarrow> string option" where
  "group m n = map_of (m_groups m) n"

text \<open>
  \<open>exec_from\<close> tries the start positions from left to right: \<open>b\<close> is the text already
  skipped, most recent character first.
\<close>

fun exec_from :: "bool \<Rightarrow> rx \<Rightarrow> string \<Rightarrow> string \<Rightarrow> match option" where
  "exec_from ic r b [] =
     (case rx_m ic r (b, [], []) of [] \<Rightarrow> None
      | st # _ \<Rightarrow> Some \<lparr>m_whole = [], m_groups = captures st\<rparr>)"
| "exec_from ic r b (x # xs) =
     (case rx_m ic r (b, x # xs, []) of [] \<Rightarrow> exec_from ic r (x # b) xs
      | st # _ \<Rightarrow> Some \<lparr>m_whole = consumed (b, x # xs, []) st, m_groups = captures st\<rparr>)"

text \<open>\<^verbatim>\<open>s.match(p)\<close> for a regular expression without the flag \<^verbatim>\<open>g\<close>.\<close>

definition str_match :: "string \<Rightarrow> RegExp \<Rightarrow> match option" where
  "str_match s p = exec_from (flag_i p) (node p) [] s"

text \<open>\<^verbatim>\<open>p.test(s)\<close>.\<close>

definition test :: "RegExp \<Rightarrow> string \<Rightarrow> bool" where
  "test p s = (str_match s p \<noteq> None)"

section \<open>The pattern library\<close>

text \<open>
  \<^verbatim>\<open>AIProcessor.initializeFieldPatterns\<close>: for each field type, in the order of the
  object literal, its regular expressions in the order in which they are tried. The
  fragments that recur in the literals are named once: \<open>kv_sep\<close> is
  \<^verbatim>\<open>[:\s]*\<close> and \<open>cap_field\<close> is \<^verbatim>\<open>([^,\n]+)\<close>.
\<close>

definition kv_sep :: rx where
  "kv_sep = Rep 0 None (Cls False [CChr (CHR '':''), CSpace])"

definition cap_field :: rx where
  "cap_field = Grp 1 (Rep 1 None (Cls True [CChr (CHR '',''), CNl]))"

definition cap_phone :: rx where
  "cap_phone = Grp 1 (seqs [Rep 0 (Some 1) (Esc (CHR ''('')), Rep 10 None (Cls False [CDigit,
      CSpace, CEsc (CHR ''-''), CEsc (CHR ''.''), CEsc (CHR ''(''), CEsc (CHR '')'')])])"

definition cap_email :: rx where
  "cap_email = Grp 1 (seqs [Rep 1 None (Cls False [CRange (CHR ''a'') (CHR ''z''), CRange
      (CHR ''A'') (CHR ''Z''), CRange (CHR ''0'') (CHR ''9''), CChr (CHR ''.''), CChr
      (CHR ''_''), CChr (CHR ''%''), CChr (CHR ''+''), CChr (CHR ''-'')]), Chr (CHR ''@''),
      Rep 1 None (Cls False [CRange (CHR ''a'') (CHR ''z''), CRange (CHR ''A'') (CHR ''Z''),
      CRange (CHR ''0'') (CHR ''9''), CChr (CHR ''.''), CChr (CHR ''-'')]), Esc (CHR ''.''),
      Rep 2 None (Cls False [CRange (CHR ''a'') (CHR ''z''), CRange (CHR ''A'') (CHR ''Z'')])])"

definition cap_address :: rx where
  "cap_address = Grp 1 (seqs [Rep 1 None (Cls True [CChr (CHR '',''), CNl]), Rep 0 None (NGrp
      (seqs [Chr (CHR '',''), Rep 0 None Space, Rep 1 None (Cls True [CChr (CHR '',''),
      CNl])]))])"

definition cap_zip :: rx where
  "cap_zip = Grp 1 (seqs [Rep 5 (Some 5) Digit, Rep 0 (Some 1) (NGrp (seqs [Chr (CHR ''-''),
      Rep 4 (Some 4) Digit]))])"

definition cap_state :: rx where
  "cap_state = Grp 1 (Alt (Rep 2 (Some 2) (Cls False [CRange (CHR ''A'') (CHR ''Z'')]))
      (Rep 1 None (Cls False [CRange (CHR ''A'') (CHR ''Z''), CRange (CHR ''a'') (CHR ''z''),
      CSpace])))"

definition cap_code :: rx where
  "cap_code = Grp 1 (Rep 1 None (Cls False [CRange (CHR ''A'') (CHR ''Z''), CRange (CHR ''0'')
      (CHR ''9''), CEsc (CHR ''-'')]))"

definition cap_taxnum :: rx where
  "cap_taxnum = Grp 1 (Rep 1 None (Cls False [CRange (CHR ''0'') (CHR ''9''), CEsc (CHR ''-'')]))"

definition cap_npi :: rx where
  "cap_npi = Grp 1 (Rep 1 None (Cls False [CRange (CHR ''0'') (CHR ''9'')]))"

definition cap_url :: rx where
  "cap_url = Grp 1 (Rep 1 None (Cls True [CSpace, CNl]))"

definition principalInvestigator_patterns :: "RegExp list" where
  "principalInvestigator_patterns = [
     regex (seqs [lit ''principal'', Rep 1 None Space, lit ''investigator'', kv_sep,
         cap_field]) ''i'',
     regex (seqs [lit ''pi'', kv_sep, cap_field]) ''i'',
     regex (seqs [lit ''dr'', Rep 0 (Some 1) (Esc (CHR ''.'')), Rep 1 None Space,
         cap_field]) ''i'',
     regex (seqs [lit ''investigator'', kv_sep, cap_field]) ''i'',
     regex (seqs [lit ''physician'', kv_sep, cap_field]) ''i'',
     regex (seqs [lit ''doctor'', kv_sep, cap_field]) ''i''
   ]"

definition firstName_patterns :: "RegExp list" where
  "firstName_patterns = [
     regex (seqs [lit ''first'', Rep 1 None Space, lit ''name'', kv_sep, cap_field]) ''i'',
     regex (seqs [lit ''fname'', kv_sep, cap_field]) ''i'',
     regex (seqs [lit ''given'', Rep 1 None Space, lit ''name'', kv_sep, cap_field]) ''i''
   ]"

definition lastName_patterns :: "RegExp list" where
  "lastName_patterns = [
     regex (seqs [lit ''last'', Rep 1 None Space, lit ''name'', kv_sep, cap_field]) ''i'',
     regex (seqs [lit ''lname'', kv_sep, cap_field]) ''i'',
     regex (seqs [lit ''surname'', kv_sep, cap_field]) ''i'',
     regex (seqs [lit ''family'', Rep 1 None Space, lit ''name'', kv_sep, cap_field]) ''i''
   ]"

definition fullName_patterns :: "RegExp list" where
  "fullName_patterns = [
     regex (seqs [lit ''name'', kv_sep, cap_field]) ''i'',
     regex (seqs [lit ''contact'', kv_sep, cap_field]) ''i''
   ]"

definition phone_patterns :: "RegExp list" where
  "phone_patterns = [
     regex (seqs [lit ''phone'', kv_sep, cap_phone]) ''i'',
     regex (seqs [lit ''tel'', kv_sep, cap_phone]) ''i'',
     regex (seqs [lit ''telephone'', kv_sep, cap_phone]) ''i'',
     regex (seqs [lit ''mobile'', kv_sep, cap_phone]) ''i'',
     regex (seqs [lit ''cell'', kv_sep, cap_phone]) ''i'',
     regex (Grp 1 (seqs [Esc (CHR ''(''), Rep 3 (Some 3) Digit, Esc (CHR '')''),
         Rep 0 None Space, Rep 3 (Some 3) Digit, Chr (CHR ''-''), Rep 4 (Some 4) Digit])) '''',
     regex (Grp 1 (seqs [Rep 3 (Some 3) Digit, Rep 0 (Some 1) (Cls False [CChr (CHR ''-''), CEsc
         (CHR ''.''), CSpace]), Rep 3 (Some 3) Digit, Rep 0 (Some 1) (Cls False [CChr
         (CHR ''-''), CEsc (CHR ''.''), CSpace]), Rep 4 (Some 4) Digit])) ''''
   ]"

definition email_patterns :: "RegExp list" where
  "email_patterns = [
     regex (seqs [lit ''email'', kv_sep, cap_email]) ''i'',
     regex (seqs [lit ''mail'', kv_sep, cap_email]) ''i'',
     regex (seqs [lit ''e-mail'', kv_sep, cap_email]) ''i'',
     regex (cap_email) ''''
   ]"

definition fax_patterns :: "RegExp list" where
  "fax_patterns = [
     regex (seqs [lit ''fax'', kv_sep, cap_phone]) ''i'',
     regex (seqs [lit ''facsimile'', kv_sep, cap_phone]) ''i''
   ]"

definition address_patterns :: "RegExp list" where
  "address_patterns = [
     regex (seqs [lit ''address'', kv_sep, cap_address]) ''i'',
     regex (seqs [lit ''street'', kv_sep, cap_address]) ''i'',
     regex (seqs [lit ''location'', kv_sep, cap_address]) ''i'',
     regex (Grp 1 (seqs [Rep 1 None Digit, Rep 1 None Space, Rep 1 None (Cls True [CChr
         (CHR '',''), CNl]), Rep 0 None (NGrp (seqs [Chr (CHR '',''), Rep 0 None Space,
         Rep 1 None (Cls True [CChr (CHR '',''), CNl])]))])) ''''
   ]"

definition city_patterns :: "RegExp list" where
  "city_patterns = [
     regex (seqs [lit ''city'', kv_sep, cap_field]) ''i'',
     regex (seqs [lit ''town'', kv_sep, cap_field]) ''i'',
     regex (seqs [Chr (CHR '',''), Rep 0 None Space, Grp 1 (Rep 1 None (Cls False [CRange
         (CHR ''A'') (CHR ''Z''), CRange (CHR ''a'') (CHR ''z''), CSpace])), Chr (CHR '',''),
         Rep 0 None Space, Rep 2 (Some 2) (Cls False [CRange (CHR ''A'') (CHR ''Z'')])]) '''',
     regex (seqs [lit ''address'', Rep 0 None (Cls True [CChr (CHR '',''), CNl]), Chr
         (CHR '',''), Rep 0 None Space, cap_field, Chr (CHR '','')]) ''i''
   ]"

definition state_patterns :: "RegExp list" where
  "state_patterns = [
     regex (seqs [lit ''state'', kv_sep, cap_state]) ''i'',
     regex (seqs [lit ''province'', kv_sep, cap_state]) ''i'',
     regex (seqs [Chr (CHR '',''), Rep 0 None Space, Grp 1 (Rep 2 (Some 2) (Cls False [CRange
         (CHR ''A'') (CHR ''Z'')])), Rep 1 None Space, Rep 5 (Some 5) Digit]) '''',
     regex (seqs [Chr (CHR '',''), Rep 0 None Space, Grp 1 (Rep 1 None (Cls False [CRange
         (CHR ''A'') (CHR ''Z''), CRange (CHR ''a'') (CHR ''z''), CSpace])), Rep 1 None Space,
         Rep 5 (Some 5) Digit]) ''''
   ]"

definition zipCode_patterns :: "RegExp list" where
  "zipCode_patterns = [
     regex (seqs [lit ''zip'', kv_sep, cap_zip]) ''i'',
     regex (seqs [lit ''postal'', kv_sep, cap_zip]) ''i'',
     regex (seqs [lit ''zip'', Rep 1 None Space, lit ''code'', kv_sep, cap_zip]) ''i'',
     regex (cap_zip) ''''
   ]"

definition country_patterns :: "RegExp list" where
  "country_patterns = [
     regex (seqs [lit ''country'', kv_sep, cap_field]) ''i'',
     regex (seqs [lit ''nation'', kv_sep, cap_field]) ''i''
   ]"

definition institutionName_patterns :: "RegExp list" where
  "institutionName_patterns = [
     regex (seqs [lit ''institution'', kv_sep, cap_field]) ''i'',
     regex (seqs [lit ''hospital'', kv_sep, cap_field]) ''i'',
     regex (seqs [lit ''center'', kv_sep, cap_field]) ''i'',
     regex (seqs [lit ''centre'', kv_sep, cap_field]) ''i'',
     regex (seqs [lit ''clinic'', kv_sep, cap_field]) ''i'',
     regex (seqs [lit ''university'', kv_sep, cap_field]) ''i'',
     regex (seqs [lit ''college'', kv_sep, cap_field]) ''i'',
     regex (seqs [lit ''organization'', kv_sep, cap_field]) ''i'',
     regex (seqs [lit ''organisation'', kv_sep, cap_field]) ''i'',
     regex (seqs [lit ''company'', kv_sep, cap_field]) ''i''
   ]"

definition department_patterns :: "RegExp list" where
  "department_patterns = [
     regex (seqs [lit ''department'', kv_sep, cap_field]) ''i'',
     regex (seqs [lit ''dept'', kv_sep, cap_field]) ''i'',
     regex (seqs [lit ''division'', kv_sep, cap_field]) ''i'',
     regex (seqs [lit ''unit'', kv_sep, cap_field]) ''i'',
     regex (seqs [lit ''section'', kv_sep, cap_field]) ''i''
   ]"

definition irbContact_patterns :: "RegExp list" where
  "irbContact_patterns = [
     regex (seqs [lit ''irb'', kv_sep, cap_field]) ''i'',
     regex (seqs [lit ''institutional'', Rep 1 None Space, lit ''review'', Rep 1 None Space,
         lit ''board'', kv_sep, cap_field]) ''i'',
     regex (seqs [lit ''ethics'', kv_sep, cap_field]) ''i'',
     regex (seqs [lit ''review'', Rep 1 None Space, lit ''board'', kv_sep, cap_field]) ''i''
   ]"

definition licenseNumber_patterns :: "RegExp list" where
  "licenseNumber_patterns = [
     regex (seqs [lit ''license'', kv_sep, cap_code]) ''i'',
     regex (seqs [lit ''licence'', kv_sep, cap_code]) ''i'',
     regex (seqs [lit ''license'', Rep 1 None Space, lit ''number'', kv_sep, cap_code]) ''i'',
     regex (seqs [lit ''lic'', kv_sep, cap_code]) ''i'',
     regex (seqs [lit ''permit'', kv_sep, cap_code]) ''i''
   ]"

definition deaNumber_patterns :: "RegExp list" where
  "deaNumber_patterns = [
     regex (seqs [lit ''dea'', kv_sep, cap_code]) ''i'',
     regex (seqs [lit ''dea'', Rep 1 None Space, lit ''number'', kv_sep, cap_code]) ''i'',
     regex (seqs [lit ''drug'', Rep 1 None Space, lit ''enforcement'', kv_sep, cap_code]) ''i''
   ]"

definition taxId_patterns :: "RegExp list" where
  "taxId_patterns = [
     regex (seqs [lit ''tax'', Rep 1 None Space, lit ''id'', kv_sep, cap_taxnum]) ''i'',
     regex (seqs [lit ''ein'', kv_sep, cap_taxnum]) ''i'',
     regex (seqs [lit ''federal'', Rep 1 None Space, lit ''id'', kv_sep, cap_taxnum]) ''i'',
     regex (seqs [lit ''tax'', Rep 1 None Space, lit ''number'', kv_sep, cap_taxnum]) ''i''
   ]"

definition npiNumber_patterns :: "RegExp list" where
  "npiNumber_patterns = [
     regex (seqs [lit ''npi'', kv_sep, cap_npi]) ''i'',
     regex (seqs [lit ''npi'', Rep 1 None Space, lit ''number'', kv_sep, cap_npi]) ''i'',
     regex (seqs [lit ''national'', Rep 1 None Space, lit ''provider'', kv_sep, cap_npi]) ''i''
   ]"

definition coordinator_patterns :: "RegExp list" where
  "coordinator_patterns = [
     regex (seqs [lit ''coordinator'', kv_sep, cap_field]) ''i'',
     regex (seqs [lit ''study'', Rep 1 None Space, lit ''coordinator'', kv_sep, cap_field]) ''i'',
     regex (seqs [lit ''research'', Rep 1 None Space, lit ''coordinator'', kv_sep,
         cap_field]) ''i'',
     regex (seqs [lit ''clinical'', Rep 1 None Space, lit ''coordinator'', kv_sep,
         cap_field]) ''i'',
     regex (seqs [lit ''trial'', Rep 1 None Space, lit ''coordinator'', kv_sep, cap_field]) ''i''
   ]"

definition subInvestigator_patterns :: "RegExp list" where
  "subInvestigator_patterns = [
     regex (seqs [lit ''sub'', kv_sep, lit ''investigator'', kv_sep, cap_field]) ''i'',
     regex (seqs [lit ''co'', kv_sep, lit ''investigator'', kv_sep, cap_field]) ''i'',
     regex (seqs [lit ''associate'', kv_sep, lit ''investigator'', kv_sep, cap_field]) ''i'',
     regex (seqs [lit ''assistant'', kv_sep, lit ''investigator'', kv_sep, cap_field]) ''i''
   ]"

definition title_patterns :: "RegExp list" where
  "title_patterns = [
     regex (seqs [lit ''title'', kv_sep, cap_field]) ''i'',
     regex (seqs [lit ''position'', kv_sep, cap_field]) ''i'',
     regex (seqs [lit ''role'', kv_sep, cap_field]) ''i'',
     regex (seqs [lit ''designation'', kv_sep, cap_field]) ''i''
   ]"

definition website_patterns :: "RegExp list" where
  "website_patterns = [
     regex (seqs [lit ''website'', kv_sep, cap_url]) ''i'',
     regex (seqs [lit ''url'', kv_sep, cap_url]) ''i'',
     regex (Grp 1 (seqs [lit ''http'', Rep 0 (Some 1) (Chr (CHR ''s'')), Chr (CHR '':''), Esc
         (CHR ''/''), Esc (CHR ''/''), Rep 1 None (Cls True [CSpace, CNl])])) ''i''
   ]"

definition specialty_patterns :: "RegExp list" where
  "specialty_patterns = [
     regex (seqs [lit ''specialty'', kv_sep, cap_field]) ''i'',
     regex (seqs [lit ''specialization'', kv_sep, cap_field]) ''i'',
     regex (seqs [lit ''focus'', kv_sep, cap_field]) ''i''
   ]"

definition fieldPatterns :: "(string \<times> RegExp list) list" where
  "fieldPatterns = [
     (''principalInvestigator'', principalInvestigator_patterns),
     (''firstName'', firstName_patterns),
     (''lastName'', lastName_patterns),
     (''fullName'', fullName_patterns),
     (''phone'', phone_patterns),
     (''email'', email_patterns),
     (''fax'', fax_patterns),
     (''address'', address_patterns),
     (''city'', city_patterns),
     (''state'', state_patterns),
     (''zipCode'', zipCode_patterns),
     (''country'', country_patterns),
     (''institutionName'', institutionName_patterns),
     (''department'', department_patterns),
     (''irbContact'', irbContact_patterns),
     (''licenseNumber'', licenseNumber_patterns),
     (''deaNumber'', deaNumber_patterns),
     (''taxId'', taxId_patterns),
     (''npiNumber'', npiNumber_patterns),
     (''coordinator'', coordinator_patterns),
     (''subInvestigator'', subInvestigator_patterns),
     (''title'', title_patterns),
     (''website'', website_patterns),
     (''specialty'', specialty_patterns)
   ]"

text \<open>The regular expressions of \<^verbatim>\<open>extractFlexiblePatterns\<close>.\<close>

definition colon_regex :: RegExp where
  "colon_regex = regex (seqs [Bol, Grp 1 (Rep 1 None (Cls True [CChr (CHR '':'')])),
      Chr (CHR '':''), Rep 0 None Space, Grp 2 (Rep 1 None Dot), Eol]) ''''"

definition standalone_email_regex :: RegExp where
  "standalone_email_regex = regex cap_email ''''"

definition standalone_phone_regex :: RegExp where
  "standalone_phone_regex = regex cap_phone ''''"

section \<open>ConfidenceCalculator\<close>

text \<open>\<^verbatim>\<open>match[1] && match[1].length > n\<close>.\<close>

definition longer_than :: "string option \<Rightarrow> nat \<Rightarrow> bool" where
  "longer_than g n = (case g of None \<Rightarrow> False | Some s \<Rightarrow> s \<noteq> [] \<and> length s > n)"

definition calculatePatternConfidence :: "RegExp \<Rightarrow> match \<Rightarrow> real" where
  "calculatePatternConfidence pattern m =
     (let c0 = 0.5;
          c1 = (if includes_str (source pattern) [bslash, CHR ''d''] then c0 + 0.2 else c0);
          c2 = (if includes_str (source pattern) ''+'' then c1 + 0.1 else c1);
          c3 = (if includes_str (source pattern) ''[A-Z]'' then c2 + 0.1 else c2);
          c4 = (if includes_str (flags pattern) ''i'' then c3 - 0.05 else c3);
          c5 = (if longer_than (group m 1) 3 then c4 + 0.1 else c4);
          c6 = (if longer_than (group m 1) 10 then c5 + 0.1 else c5)
      in min c6 1.0)"

record Mapping =
  mp_fieldId :: string
  mp_fieldName :: string
  mp_fieldType :: string
  mp_mappedValue :: string
  mp_confidence :: real
  mp_extractedFrom :: string

definition calculateOverallConfidence :: "Mapping list \<Rightarrow> real" where
  "calculateOverallConfidence mappings =
     (if length mappings = 0 then 0
      else foldl (\<lambda>sum mapping. sum + mp_confidence mapping) 0 mappings / real (length mappings))"

section \<open>Extraction\<close>

text \<open>
  The object \<^verbatim>\<open>extracted\<close> is an association list in the order in which its
  properties were created, which is the order of \<^verbatim>\<open>Object.entries\<close> for these
  keys. An assignment \<^verbatim>\<open>extracted[k] = v\<close> is \<open>AList.update k v\<close>: it replaces
  the value of a key that is present and appends a new key at the end. Every value stored
  is an object, so \<^verbatim>\<open>!extracted[k]\<close> holds exactly when the key is absent.
\<close>

record ExtractedValue =
  ev_value :: string
  ev_confidence :: real
  ev_pattern :: string
  ev_method :: string

type_synonym extracted = "(string \<times> ExtractedValue) list"

definition has_key :: "extracted \<Rightarrow> string \<Rightarrow> bool" where
  "has_key extracted k = (map_of extracted k \<noteq> None)"

text \<open>
  \<^verbatim>\<open>match[n]\<close> where the program uses it as a string. In each regular expression of
  the program every capture group takes part in every match, so the group is defined
  (lemma \<open>groups_defined\<close> below) and the default is never returned.
\<close>

definition the_group :: "match \<Rightarrow> nat \<Rightarrow> string" where
  "the_group m n = (case group m n of None \<Rightarrow> [] | Some s \<Rightarrow> s)"

text \<open>The inner loop of the first pass: the first pattern that matches, with its match.\<close>

fun first_match :: "RegExp list \<Rightarrow> string \<Rightarrow> (RegExp \<times> match) option" where
  "first_match [] text = None"
| "first_match (pattern # patterns) text =
     (case str_match text pattern of
        Some m \<Rightarrow> Some (pattern, m)
      | None \<Rightarrow> first_match patterns text)"

definition regex_value :: "RegExp \<Rightarrow> match \<Rightarrow> ExtractedValue" where
  "regex_value pattern m =
     \<lparr>ev_value = (case group m 1 of
                    None \<Rightarrow> trim (m_whole m)
                  | Some g \<Rightarrow> if g \<noteq> [] then trim g else trim (m_whole m)),
      ev_confidence = calculatePatternConfidence pattern m,
      ev_pattern = toString pattern,
      ev_method = ''regex''\<rparr>"

definition regex_step :: "string \<Rightarrow> extracted \<Rightarrow> string \<times> RegExp list \<Rightarrow> extracted" where
  "regex_step text extracted entry =
     (case first_match (snd entry) text of
        None \<Rightarrow> extracted
      | Some (pattern, m) \<Rightarrow> AList.update (fst entry) (regex_value pattern m) extracted)"

text \<open>The first pass of \<^verbatim>\<open>extractStructuredData\<close>.\<close>

definition regex_pass :: "string \<Rightarrow> extracted" where
  "regex_pass text = foldl (regex_step text) [] fieldPatterns"

text \<open>
  \<^verbatim>\<open>getFieldMapping\<close>: \<^verbatim>\<open>mappings[key] || null\<close>. The key is text of the
  profile, lower-cased, so besides the keys of the literal it can name the two properties
  that the literal inherits under a lower-case name, \<^verbatim>\<open>constructor\<close> and
  \<^verbatim>\<open>__proto__\<close>; used as a property key of \<^verbatim>\<open>extracted\<close>, their values
  become the strings given here.
\<close>

definition field_mappings :: "(string \<times> string) list" where
  "field_mappings = [
     (''name'', ''fullName''),
     (''full name'', ''fullName''),
     (''contact name'', ''fullName''),
     (''first name'', ''firstName''),
     (''last name'', ''lastName''),
     (''email'', ''email''),
     (''e-mail'', ''email''),
     (''mail'', ''email''),
     (''phone'', ''phone''),
     (''telephone'', ''phone''),
     (''tel'', ''phone''),
     (''mobile'', ''phone''),
     (''cell'', ''phone''),
     (''fax'', ''fax''),
     (''address'', ''address''),
     (''street'', ''address''),
     (''location'', ''address''),
     (''city'', ''city''),
     (''state'', ''state''),
     (''zip'', ''zipCode''),
     (''postal'', ''zipCode''),
     (''country'', ''country''),
     (''institution'', ''institutionName''),
     (''hospital'', ''institutionName''),
     (''organization'', ''institutionName''),
     (''company'', ''institutionName''),
     (''department'', ''department''),
     (''dept'', ''department''),
     (''title'', ''title''),
     (''position'', ''title''),
     (''role'', ''title''),
     (''coordinator'', ''coordinator''),
     (''investigator'', ''principalInvestigator''),
     (''pi'', ''principalInvestigator''),
     (''doctor'', ''principalInvestigator''),
     (''license'', ''licenseNumber''),
     (''dea'', ''deaNumber''),
     (''tax id'', ''taxId''),
     (''ein'', ''taxId''),
     (''npi'', ''npiNumber''),
     (''website'', ''website''),
     (''url'', ''website''),
     (''specialty'', ''specialty'')
   ]"

definition inherited_mappings :: "(string \<times> string) list" where
  "inherited_mappings = [
     (''constructor'', ''function Object() { [native code] }''),
     (''__proto__'', ''[object Object]'')
   ]"

definition getFieldMapping :: "string \<Rightarrow> string option" where
  "getFieldMapping key =
     (case map_of field_mappings key of
        Some fieldType \<Rightarrow> (if fieldType \<noteq> [] then Some fieldType else None)
      | None \<Rightarrow> map_of inherited_mappings key)"

definition colon_step :: "extracted \<Rightarrow> string \<Rightarrow> extracted" where
  "colon_step extracted line =
     (case str_match line colon_regex of
        None \<Rightarrow> extracted
      | Some colonMatch \<Rightarrow>
          (let key = toLowerCase (trim (the_group colonMatch 1));
               val = trim (the_group colonMatch 2)
           in if length val > 0 \<and> length val < 200
              then (case getFieldMapping key of
                      None \<Rightarrow> extracted
                    | Some fieldMapping \<Rightarrow>
                        if \<not> has_key extracted fieldMapping
                        then AList.update fieldMapping
                               \<lparr>ev_value = val, ev_confidence = 0.7,
                                ev_pattern = ''flexible_colon'', ev_method = ''flexible''\<rparr>
                               extracted
                        else extracted)
              else extracted))"

definition email_step :: "extracted \<Rightarrow> string \<Rightarrow> extracted" where
  "email_step extracted line =
     (if \<not> has_key extracted ''email''
      then (case str_match line standalone_email_regex of
              None \<Rightarrow> extracted
            | Some emailMatch \<Rightarrow>
                AList.update ''email''
                  \<lparr>ev_value = the_group emailMatch 1, ev_confidence = 0.9,
                   ev_pattern = ''standalone_email'', ev_method = ''flexible''\<rparr>
                  extracted)
      else extracted)"

text \<open>\<^verbatim>\<open>phoneMatch[1].replace(/\D/g, '').length\<close> is the number of digits captured.\<close>

definition phone_step :: "extracted \<Rightarrow> string \<Rightarrow> extracted" where
  "phone_step extracted line =
     (if \<not> has_key extracted ''phone''
      then (case str_match line standalone_phone_regex of
              None \<Rightarrow> extracted
            | Some phoneMatch \<Rightarrow>
                if length (filter is_digit (the_group phoneMatch 1)) \<ge> 10
                then AList.update ''phone''
                       \<lparr>ev_value = the_group phoneMatch 1, ev_confidence = 0.8,
                        ev_pattern = ''standalone_phone'', ev_method = ''flexible''\<rparr>
                       extracted
                else extracted)
      else extracted)"

text \<open>The body of the loop over the lines: the three steps, in the order of the source.\<close>

definition flexible_line :: "extracted \<Rightarrow> string \<Rightarrow> extracted" where
  "flexible_line extracted line = phone_step (email_step (colon_step extracted line) line) line"

definition text_lines :: "string \<Rightarrow> string list" where
  "text_lines text = filter (\<lambda>line. length line > 0) (map trim (split newline text))"

definition extractFlexiblePatterns :: "string \<Rightarrow> extracted \<Rightarrow> extracted" where
  "extractFlexiblePatterns text extracted = foldl flexible_line extracted (text_lines text)"

definition extractStructuredData :: "string \<Rightarrow> extracted" where
  "extractStructuredData unstructuredData =
     extractFlexiblePatterns unstructuredData (regex_pass unstructuredData)"

section \<open>Matching fields to extracted values\<close>

text \<open>
  The tables are the object literals of the source, as association lists. A lookup
  \<^verbatim>\<open>table[key]\<close> finds the keys of the literal and, besides them, the properties
  that every object literal inherits from \<^verbatim>\<open>Object.prototype\<close>, whose names are
  these.
\<close>

definition object_prototype_keys :: "string list" where
  "object_prototype_keys = [
     ''constructor'', ''__defineGetter__'', ''__defineSetter__'', ''hasOwnProperty'',
     ''__lookupGetter__'', ''__lookupSetter__'', ''isPrototypeOf'', ''propertyIsEnumerable'',
     ''toString'', ''valueOf'', ''__proto__'', ''toLocaleString''
   ]"

text \<open>
  The entity type \<^verbatim>\<open>dataType\<close> of the functions of this section is a key of
  \<^verbatim>\<open>extracted\<close>: a key of \<^verbatim>\<open>fieldPatterns\<close> or a value of
  \<^verbatim>\<open>getFieldMapping\<close> (lemma \<open>extracted_keys\<close>). None of these keys names an
  inherited property (lemma \<open>entity_keys_own\<close>), and neither does any of the categories
  that \<^verbatim>\<open>categorizeField\<close> gives to a field, so a lookup of an entity type or of a
  category is a lookup among the keys of the literal. For another \<^verbatim>\<open>dataType\<close>,
  such as \<^verbatim>\<open>constructor\<close>, the program has no number to compute with
  (\<^verbatim>\<open>keywords[dataType]\<close> is then a function, over which the loop of
  \<^verbatim>\<open>calculateFieldMatchScore\<close> cannot iterate); the functions are not meant for it.
  The declared type of a field, however, is any string, and its lookup is modelled with the
  inherited properties.
\<close>

definition entity_keys :: "string list" where
  "entity_keys = map fst fieldPatterns @ map snd inherited_mappings"

definition categoryMappings :: "(string \<times> string list) list" where
  "categoryMappings = [
     (''email'', [''email'']),
     (''phone'', [''phone'', ''fax'']),
     (''name'', [''firstName'', ''lastName'', ''fullName'', ''principalInvestigator'']),
     (''address'', [''address'', ''city'', ''state'', ''zipCode'', ''country'']),
     (''organization'', [''institutionName'', ''department'']),
     (''title'', [''title'', ''specialty'']),
     (''identifier'', [''licenseNumber'', ''deaNumber'', ''taxId'', ''npiNumber''])
   ]"

text \<open>\<^verbatim>\<open>table[key] || []\<close>.\<close>

definition lookup_list :: "(string \<times> string list) list \<Rightarrow> string \<Rightarrow> string list" where
  "lookup_list table key = (case map_of table key of None \<Rightarrow> [] | Some xs \<Rightarrow> xs)"

definition categoryMatches :: "string \<Rightarrow> string \<Rightarrow> bool" where
  "categoryMatches fieldCategory dataType =
     (dataType \<in> set (lookup_list categoryMappings fieldCategory))"

definition compatibility :: "(string \<times> (string \<times> real) list) list" where
  "compatibility = [
     (''email'', [(''email'', 1.0), (''fullName'', 0.3)]),
     (''tel'', [(''phone'', 1.0), (''fax'', 0.9), (''npiNumber'', 0.7), (''licenseNumber'', 0.6)]),
     (''text'', [(''*'', 0.9)]),
     (''textarea'', [(''address'', 1.0), (''specialty'', 0.9), (''*'', 0.7)]),
     (''number'', [(''zipCode'', 1.0), (''npiNumber'', 0.9), (''licenseNumber'', 0.8),
                   (''taxId'', 0.8), (''deaNumber'', 0.7)]),
     (''url'', [(''website'', 1.0), (''email'', 0.3)]),
     (''date'', [(''*'', 0.2)]),
     (''input'', [(''*'', 0.8)])
   ]"

text \<open>\<^verbatim>\<open>x || d\<close> for a number \<open>x\<close> that may be undefined: zero is falsy.\<close>

definition or_number :: "real option \<Rightarrow> real \<Rightarrow> real" where
  "or_number x d = (case x of None \<Rightarrow> d | Some v \<Rightarrow> if v = 0 then d else v)"

text \<open>
  The value of \<^verbatim>\<open>compatibility[key]\<close> where it is defined: the row of a key of the
  literal or, for a key that names an inherited property, the inherited function or object.
\<close>

datatype 'a js_property = Own 'a | Inherited

definition compatibility_lookup :: "string \<Rightarrow> (string \<times> real) list js_property option" where
  "compatibility_lookup key =
     (case map_of compatibility key of
        Some row \<Rightarrow> Some (Own row)
      | None \<Rightarrow> if key \<in> set object_prototype_keys then Some Inherited else None)"

text \<open>
  \<^verbatim>\<open>compatibility[formFieldType] || compatibility['input']\<close>: a row and an inherited
  function or object are truthy alike, so only a type that names no property at all falls
  back to the row \<^verbatim>\<open>input\<close>. An inherited function or object has no property
  named by an entity type and none named \<^verbatim>\<open>*\<close>, which leaves the last default
  of \<^verbatim>\<open>fieldCompat[dataType] || fieldCompat['*'] || 0.4\<close>.
\<close>

definition getTypeCompatibility :: "string \<Rightarrow> string \<Rightarrow> real" where
  "getTypeCompatibility formFieldType dataType =
     (case (case compatibility_lookup formFieldType of
              Some fieldCompat \<Rightarrow> Some fieldCompat
            | None \<Rightarrow> compatibility_lookup ''input'') of
        None \<Rightarrow> 0.6
      | Some Inherited \<Rightarrow> 0.4
      | Some (Own fieldCompat) \<Rightarrow>
          or_number (map_of fieldCompat dataType) (or_number (map_of fieldCompat ''*'') 0.4))"

definition keywordsTable :: "(string \<times> string list) list" where
  "keywordsTable = [
     (''principalInvestigator'', [''investigator'', ''pi'', ''principal'', ''doctor'', ''dr'',
                                  ''physician'', ''md'', ''phd'']),
     (''firstName'', [''first'', ''fname'', ''given'', ''forename'']),
     (''lastName'', [''last'', ''lname'', ''surname'', ''family'', ''lastname'']),
     (''fullName'', [''name'', ''fullname'', ''contact'', ''person'', ''individual'']),
     (''phone'', [''phone'', ''tel'', ''telephone'', ''contact'', ''mobile'', ''cell'', ''number'']),
     (''email'', [''email'', ''mail'', ''contact'', ''@'']),
     (''fax'', [''fax'', ''facsimile'']),
     (''address'', [''address'', ''street'', ''location'', ''addr'', ''avenue'', ''road'',
                    ''drive'', ''lane'']),
     (''city'', [''city'', ''town'', ''municipality'']),
     (''state'', [''state'', ''province'', ''region'']),
     (''zipCode'', [''zip'', ''postal'', ''code'', ''postcode'']),
     (''country'', [''country'', ''nation'']),
     (''institutionName'', [''institution'', ''hospital'', ''center'', ''clinic'',
                            ''organization'', ''org'', ''company'', ''university'', ''college'']),
     (''department'', [''department'', ''dept'', ''division'', ''unit'', ''section'']),
     (''coordinator'', [''coordinator'', ''manager'', ''admin'', ''assistant'']),
     (''licenseNumber'', [''license'', ''licence'', ''lic'', ''permit'', ''certification'',
                          ''cert'']),
     (''deaNumber'', [''dea'', ''drug'', ''enforcement'']),
     (''taxId'', [''tax'', ''ein'', ''federal'', ''employer'']),
     (''npiNumber'', [''npi'', ''provider'', ''national'']),
     (''title'', [''title'', ''position'', ''role'', ''job'', ''designation'']),
     (''specialty'', [''specialty'', ''specialization'', ''focus'', ''area'']),
     (''website'', [''website'', ''url'', ''site'', ''web'', ''http'']),
     (''irbContact'', [''irb'', ''review'', ''board'', ''ethics'', ''committee'']),
     (''subInvestigator'', [''sub'', ''co'', ''associate'', ''assistant'', ''secondary''])
   ]"

definition abbreviations :: "(string \<times> string list) list" where
  "abbreviations = [
     (''firstName'', [''fn'', ''f_name'', ''firstname'']),
     (''lastName'', [''ln'', ''l_name'', ''lastname'']),
     (''email'', [''e_mail'', ''email_address'', ''mail_address'']),
     (''phone'', [''ph'', ''tel_no'', ''phone_no'', ''contact_no'']),
     (''address'', [''addr'', ''address_1'', ''address1'', ''street_addr'']),
     (''zipCode'', [''zip_code'', ''postal_code'', ''postcode'']),
     (''institutionName'', [''inst'', ''hosp'', ''org_name'', ''company_name''])
   ]"

text \<open>
  \<^verbatim>\<open>new RegExp(`\\b${keyword}\\b`, 'i')\<close>. Every keyword of the table consists of
  letters or is \<^verbatim>\<open>@\<close>, so its text is read as a sequence of pattern characters.
\<close>

definition wordRegex :: "string \<Rightarrow> RegExp" where
  "wordRegex keyword = regex (seqs [WordB, lit keyword, WordB]) ''i''"

definition keyword_step :: "string \<Rightarrow> real \<Rightarrow> string \<Rightarrow> real" where
  "keyword_step fieldText score keyword =
     (if includes_str fieldText keyword
      then (if test (wordRegex keyword) fieldText then score + 0.4 + 0.2 else score + 0.4)
      else score)"

definition abbrev_step :: "string \<Rightarrow> real \<Rightarrow> string \<Rightarrow> real" where
  "abbrev_step fieldText score abbrev =
     (if includes_str fieldText abbrev then score + 0.3 else score)"

definition calculateFieldMatchScore :: "string \<Rightarrow> string \<Rightarrow> string \<Rightarrow> string \<Rightarrow> real" where
  "calculateFieldMatchScore fieldText dataType fieldType fieldCategory =
     (let s1 = foldl (keyword_step fieldText) 0 (lookup_list keywordsTable dataType);
          s2 = (if includes_str fieldText (toLowerCase dataType) then s1 + 0.6 else s1);
          s3 = foldl (abbrev_step fieldText) s2 (lookup_list abbreviations dataType);
          s4 = s3 * getTypeCompatibility fieldType dataType;
          s5 = (if fieldCategory \<noteq> [] \<and> categoryMatches fieldCategory dataType
                then s4 + 0.2 else s4)
      in min s5 1.0)"

text \<open>
  A form field as \<^verbatim>\<open>findBestMatch\<close> reads it. The name, the identifier and the type
  are strings; the other properties may be undefined (\<open>None\<close>).
\<close>

record FormField =
  f_id :: string
  f_name :: string
  f_type :: string
  f_label :: "string option"
  f_context :: "string option"
  f_searchText :: "string option"
  f_fieldCategory :: "string option"

text \<open>\<^verbatim>\<open>x ? x.toLowerCase() : ''\<close> and \<^verbatim>\<open>x || d\<close> for a string that may be undefined.\<close>

definition lower_or_empty :: "string option \<Rightarrow> string" where
  "lower_or_empty x = (case x of None \<Rightarrow> [] | Some s \<Rightarrow> if s \<noteq> [] then toLowerCase s else [])"

definition or_string :: "string option \<Rightarrow> string \<Rightarrow> string" where
  "or_string x d = (case x of None \<Rightarrow> d | Some s \<Rightarrow> if s \<noteq> [] then s else d)"

definition fieldText :: "FormField \<Rightarrow> string" where
  "fieldText formField =
     toLowerCase (f_name formField) @ '' '' @ toLowerCase (f_id formField) @ '' '' @
     lower_or_empty (f_label formField) @ '' '' @ lower_or_empty (f_context formField) @ '' '' @
     or_string (f_searchText formField) []"

definition fieldCategory :: "FormField \<Rightarrow> string" where
  "fieldCategory formField = or_string (f_fieldCategory formField) ''general''"

text \<open>
  The score that the loop of \<^verbatim>\<open>findBestMatch\<close> compares with the threshold: the
  result of \<^verbatim>\<open>calculateFieldMatchScore\<close>, raised by 0.3 when the category matches.
\<close>

definition matchScore :: "FormField \<Rightarrow> string \<Rightarrow> real" where
  "matchScore formField dataType =
     (let score = calculateFieldMatchScore (fieldText formField) dataType (f_type formField)
                    (fieldCategory formField)
      in if categoryMatches (fieldCategory formField) dataType then score + 0.3 else score)"

text \<open>
  The best match is the extracted value with its confidence replaced by the score, and
  the key it was extracted under.
\<close>

record BestMatch = ExtractedValue +
  bm_fieldType :: string

definition best_step :: "FormField \<Rightarrow> real \<times> BestMatch option \<Rightarrow> string \<times> ExtractedValue
    \<Rightarrow> real \<times> BestMatch option" where
  "best_step formField acc entry =
     (let highestScore = fst acc; dataType = fst entry; data = snd entry;
          score = matchScore formField dataType
      in if score > highestScore \<and> score > 0.15
         then (score, Some \<lparr>ev_value = ev_value data, ev_confidence = score,
                             ev_pattern = ev_pattern data, ev_method = ev_method data,
                             bm_fieldType = dataType\<rparr>)
         else acc)"

definition findBestMatch :: "FormField \<Rightarrow> extracted \<Rightarrow> BestMatch option" where
  "findBestMatch formField extractedData = snd (foldl (best_step formField) (0, None) extractedData)"

definition mapping_step :: "extracted \<Rightarrow> Mapping list \<Rightarrow> FormField \<Rightarrow> Mapping list" where
  "mapping_step extractedData mappings field =
     (case findBestMatch field extractedData of
        None \<Rightarrow> mappings
      | Some bestMatch \<Rightarrow>
          mappings @ [\<lparr>mp_fieldId = f_id field, mp_fieldName = f_name field,
                        mp_fieldType = f_type field, mp_mappedValue = ev_value bestMatch,
                        mp_confidence = ev_confidence bestMatch,
                        mp_extractedFrom = bm_fieldType bestMatch\<rparr>])"

definition generateFieldMappings :: "FormField list \<Rightarrow> extracted \<Rightarrow> Mapping list" where
  "generateFieldMappings formFields extractedData =
     foldl (mapping_step extractedData) [] formFields"

definition getFieldMappings :: "FormField list \<Rightarrow> string \<Rightarrow> Mapping list" where
  "getFieldMappings formFields siteData =
     generateFieldMappings formFields (extractStructuredData siteData)"

definition processFormData :: "FormField list \<Rightarrow> string \<Rightarrow> extracted \<times> Mapping list \<times> real" where
  "processFormData formFields siteData =
     (let extractedData = extractStructuredData siteData;
          mappings = generateFieldMappings formFields extractedData
      in (extractedData, mappings, calculateOverallConfidence mappings))"

section \<open>LearningSystem\<close>

text \<open>
  A value recorded for a field: a string, or a value of another type, which
  \<^verbatim>\<open>extractCommonPatterns\<close> skips.
\<close>

datatype js_value = Str string | NotString

record CommonPattern =
  cp_type :: string
  cp_pattern :: string
  cp_frequency :: nat

type_synonym counts = "(string \<times> nat) list"

text \<open>\<^verbatim>\<open>counts[k] = (counts[k] || 0) + 1\<close>.\<close>

definition bump :: "counts \<Rightarrow> string \<Rightarrow> counts" where
  "bump cs k = AList.update k ((case map_of cs k of None \<Rightarrow> 0 | Some n \<Rightarrow> n) + 1) cs"

text \<open>
  \<^verbatim>\<open>Object.entries\<close>: the keys that are array indices (canonical decimal numerals
  below \<open>2^32 - 1\<close>) come first, in ascending numeric order; the other keys follow in the
  order of their creation.
\<close>

definition digits_value :: "string \<Rightarrow> nat" where
  "digits_value s = foldl (\<lambda>n c. 10 * n + (of_char c - 48)) 0 s"

definition array_index :: "string \<Rightarrow> nat option" where
  "array_index s =
     (if s \<noteq> [] \<and> list_all is_digit s \<and> (length s = 1 \<or> hd s \<noteq> CHR ''0'')
         \<and> digits_value s < 4294967295
      then Some (digits_value s) else None)"

definition entries :: "(string \<times> 'a) list \<Rightarrow> (string \<times> 'a) list" where
  "entries obj =
     sort_key (\<lambda>e. case array_index (fst e) of None \<Rightarrow> 0 | Some i \<Rightarrow> i)
       (filter (\<lambda>e. array_index (fst e) \<noteq> None) obj)
     @ filter (\<lambda>e. array_index (fst e) = None) obj"

definition count_step :: "counts \<times> counts \<Rightarrow> js_value \<Rightarrow> counts \<times> counts" where
  "count_step acc v =
     (case v of
        NotString \<Rightarrow> acc
      | Str s \<Rightarrow>
          if length s > 3
          then (bump (fst acc) (take 3 s), bump (snd acc) (drop (length s - 3) s))
          else acc)"

definition prefix_patterns :: "counts \<Rightarrow> CommonPattern list" where
  "prefix_patterns prefixCounts =
     concat (map (\<lambda>e. if snd e \<ge> 2
                       then [\<lparr>cp_type = ''prefix'', cp_pattern = fst e, cp_frequency = snd e\<rparr>]
                       else [])
               (entries prefixCounts))"

text \<open>
  The table of suffixes is built by the loop and not read afterwards: the result is made
  from the prefixes alone.
\<close>

definition extractCommonPatterns :: "js_value list \<Rightarrow> CommonPattern list" where
  "extractCommonPatterns vals =
     (let acc = foldl count_step ([], []) vals;
          prefixCounts = fst acc;
          suffixCounts = snd acc
      in prefix_patterns prefixCounts)"

record FieldPatterns =
  successfulValues :: "js_value list"
  commonPatterns :: "CommonPattern list"

text \<open>
  \<^verbatim>\<open>updateSuccessPatterns\<close> on \<^verbatim>\<open>siteData.patterns\<close>, for a field identifier
  that names no inherited property.
\<close>

definition updateSuccessPatterns ::
    "(string \<times> FieldPatterns) list \<Rightarrow> string \<Rightarrow> js_value \<Rightarrow> (string \<times> FieldPatterns) list" where
  "updateSuccessPatterns patterns fieldId actualValue =
     (let entry = (case map_of patterns fieldId of
                     None \<Rightarrow> \<lparr>successfulValues = [], commonPatterns = []\<rparr>
                   | Some e \<Rightarrow> e);
          vals = successfulValues entry @ [actualValue];
          entry' = (if length vals \<ge> 3
                    then \<lparr>successfulValues = vals, commonPatterns = extractCommonPatterns vals\<rparr>
                    else \<lparr>successfulValues = vals, commonPatterns = commonPatterns entry\<rparr>)
      in AList.update fieldId entry' patterns)"

section \<open>FormFiller: the search text of a field\<close>

text \<open>
  The properties of a DOM element that the form filler reads. \<open>el_attributes\<close> are the
  attributes that \<^verbatim>\<open>getAttribute\<close> returns; an attribute that is absent is
  \<^verbatim>\<open>null\<close>.
\<close>

record Element =
  el_name :: string
  el_id :: string
  el_placeholder :: string
  el_className :: string
  el_type :: string
  el_value :: string
  el_attributes :: "(string \<times> string) list"

definition getAttribute :: "Element \<Rightarrow> string \<Rightarrow> string option" where
  "getAttribute element a = map_of (el_attributes element) a"

definition search_parts :: "Element \<Rightarrow> string \<Rightarrow> string \<Rightarrow> string list" where
  "search_parts element label context =
     [el_name element, el_id element, el_placeholder element, label, context,
      el_className element,
      or_string (getAttribute element ''data-label'') [],
      or_string (getAttribute element ''aria-label'') [],
      or_string (getAttribute element ''title'') []]"

text \<open>\<^verbatim>\<open>replace(/[^a-z0-9\s]/g, ' ')\<close>.\<close>

definition blank_symbols :: "string \<Rightarrow> string" where
  "blank_symbols s =
     map (\<lambda>c. if cls_matches False True
                    [CRange (CHR ''a'') (CHR ''z''), CRange (CHR ''0'') (CHR ''9''), CSpace] c
               then CHR '' '' else c) s"

text \<open>\<^verbatim>\<open>replace(/\s+/g, ' ')\<close>: every maximal run of white space becomes one space.\<close>

function collapse_spaces :: "string \<Rightarrow> string" where
  "collapse_spaces [] = []"
| "collapse_spaces (x # xs) =
     (if is_space x then CHR '' '' # collapse_spaces (dropWhile is_space xs)
      else x # collapse_spaces xs)"
  by pat_completeness auto
termination
proof (relation "measure length")
  fix x :: char and xs :: string
  have "length (dropWhile is_space xs) \<le> length xs"
    by (rule length_dropWhile_le)
  then show "(dropWhile is_space xs, x # xs) \<in> measure length"
    by simp
qed auto

definition normalize :: "string \<Rightarrow> string" where
  "normalize s = trim (collapse_spaces (blank_symbols (toLowerCase s)))"

definition buildSearchText :: "Element \<Rightarrow> string \<Rightarrow> string \<Rightarrow> string" where
  "buildSearchText element label context =
     normalize (join (filter (\<lambda>part. part \<noteq> [] \<and> length (trim part) > 0)
                        (search_parts element label context)))"

section \<open>Notions used in the statements\<close>

text \<open>
  The pattern confidence as the specification words it, for comparison with
  \<open>calculatePatternConfidence\<close>: the sentence differs from the code in one place, the
  bonus of 0.1 "for a quantifier". \<open>has_quantifier\<close> holds of a regular expression in
  which a quantifier occurs.
\<close>

fun has_quantifier :: "rx \<Rightarrow> bool" where
  "has_quantifier (Rep lo hi r) = True"
| "has_quantifier (Seq a b) = (has_quantifier a \<or> has_quantifier b)"
| "has_quantifier (Alt a b) = (has_quantifier a \<or> has_quantifier b)"
| "has_quantifier (Grp n r) = has_quantifier r"
| "has_quantifier (NGrp r) = has_quantifier r"
| "has_quantifier _ = False"

definition bonus :: "bool \<Rightarrow> real \<Rightarrow> real" where
  "bonus b x = (if b then x else 0)"

definition spec_patternConfidence :: "RegExp \<Rightarrow> match \<Rightarrow> real" where
  "spec_patternConfidence pattern m =
     min 1.0 (0.5
       + bonus (includes_str (source pattern) [bslash, CHR ''d'']) 0.2
       + bonus (has_quantifier (node pattern)) 0.1
       + bonus (includes_str (source pattern) ''[A-Z]'') 0.1
       - bonus (flag_i pattern) 0.05
       + bonus (longer_than (group m 1) 3) 0.1
       + bonus (longer_than (group m 1) 10) 0.1)"

text \<open>
  The invariant of the loop of \<^verbatim>\<open>findBestMatch\<close> after the entries \<open>ex\<close>: no entry
  seen scores above both the threshold and the highest score, and the best match, when
  there is one, is an entry seen, with its score as confidence.
\<close>

definition best_inv :: "FormField \<Rightarrow> extracted \<Rightarrow> real \<times> BestMatch option \<Rightarrow> bool" where
  "best_inv f ex acc =
     ((\<forall>e\<in>set ex. matchScore f (fst e) \<le> fst acc \<or> matchScore f (fst e) \<le> 0.15)
      \<and> (case snd acc of
            None \<Rightarrow> fst acc = 0
          | Some b \<Rightarrow> fst acc = ev_confidence b \<and> 0.15 < ev_confidence b
               \<and> (\<exists>d. (bm_fieldType b, d) \<in> set ex
                      \<and> ev_confidence b = matchScore f (bm_fieldType b)
                      \<and> ev_value b = ev_value d \<and> ev_pattern b = ev_pattern d
                      \<and> ev_method b = ev_method d)))"

text \<open>
  A sufficient condition, read off the syntax, for a regular expression to match only
  where the text has a character that is not white space.
\<close>

definition space_chars :: string where
  "space_chars = [CHR 0x09, CHR 0x0A, CHR 0x0B, CHR 0x0C, CHR 0x0D, CHR 0x20, CHR 0xA0]"

fun item_needs_ink :: "citem \<Rightarrow> bool" where
  "item_needs_ink (CChr c) = (\<not> is_space c)"
| "item_needs_ink (CEsc c) = (\<not> is_space c)"
| "item_needs_ink (CRange a b) = list_all (\<lambda>s. \<not> in_range a b s) space_chars"
| "item_needs_ink CDigit = True"
| "item_needs_ink _ = False"

fun needs_ink :: "rx \<Rightarrow> bool" where
  "needs_ink (Chr c) = (\<not> is_space c \<and> \<not> is_space (toUpperChar c))"
| "needs_ink (Esc c) = (\<not> is_space c \<and> \<not> is_space (toUpperChar c))"
| "needs_ink Digit = True"
| "needs_ink (Cls neg items) = (\<not> neg \<and> list_all item_needs_ink items)"
| "needs_ink (Seq a b) = (needs_ink a \<or> needs_ink b)"
| "needs_ink (Alt a b) = (needs_ink a \<and> needs_ink b)"
| "needs_ink (Rep lo hi r) = (lo > 0 \<and> hi \<noteq> Some 0 \<and> needs_ink r)"
| "needs_ink (Grp n r) = needs_ink r"
| "needs_ink (NGrp r) = needs_ink r"
| "needs_ink _ = False"

text \<open>
  The number of strings longer than 3 characters, among the values, that begin with
  \<open>p\<close>; \<open>counts_ok vals cs\<close>: the table \<open>cs\<close> holds these numbers for the values \<open>vals\<close>.
\<close>

definition prefix_count :: "js_value list \<Rightarrow> string \<Rightarrow> nat" where
  "prefix_count vals p =
     length (filter (\<lambda>v. case v of Str s \<Rightarrow> length s > 3 \<and> take 3 s = p | NotString \<Rightarrow> False)
       vals)"

definition counts_ok :: "js_value list \<Rightarrow> counts \<Rightarrow> bool" where
  "counts_ok vals cs = (distinct (map fst cs)
     \<and> (\<forall>p. map_of cs p = (if prefix_count vals p = 0 then None else Some (prefix_count vals p))))"

text \<open>
  \<open>extends ex ex'\<close>: the object \<open>ex'\<close> has the entries of \<open>ex\<close>, in their order, followed
  by new ones, and its keys are distinct when those of \<open>ex\<close> are.
\<close>

definition extends :: "extracted \<Rightarrow> extracted \<Rightarrow> bool" where
  "extends ex ex' = (prefix ex ex' \<and> (distinct (map fst ex) \<longrightarrow> distinct (map fst ex')))"

text \<open>
  \<open>sets_group n r\<close>: read off the syntax, every match of \<open>r\<close> defines the capture group
  \<open>n\<close>. \<open>captured n st\<close>: the group is defined in the state \<open>st\<close>.
\<close>

fun sets_group :: "nat \<Rightarrow> rx \<Rightarrow> bool" where
  "sets_group n (Grp k r) = (k = n \<or> sets_group n r)"
| "sets_group n (NGrp r) = sets_group n r"
| "sets_group n (Seq a b) = (sets_group n a \<or> sets_group n b)"
| "sets_group n (Alt a b) = (sets_group n a \<and> sets_group n b)"
| "sets_group n (Rep lo hi r) = (lo > 0 \<and> hi \<noteq> Some 0 \<and> sets_group n r)"
| "sets_group n _ = False"

definition captured :: "nat \<Rightarrow> mstate \<Rightarrow> bool" where
  "captured n st = (map_of (captures st) n \<noteq> None)"

text \<open>
  A text in which no two white-space characters are adjacent, and the characters that
  \<^verbatim>\<open>buildSearchText\<close> keeps besides the space.
\<close>

fun single_spaced :: "string \<Rightarrow> bool" where
  "single_spaced (x # y # r) = (\<not> (is_space x \<and> is_space y) \<and> single_spaced (y # r))"
| "single_spaced _ = True"

definition plain_char :: "char \<Rightarrow> bool" where
  "plain_char c = (in_range CHR ''a'' CHR ''z'' c \<or> in_range CHR ''0'' CHR ''9'' c)"

subsection \<open>Example inputs\<close>

text \<open>
  An extraction with the three entries of the specification's first scenario, a profile
  of one line with its extraction, a profile of two lines, and two fields of a form.
\<close>

definition scenario_extracted :: extracted where
  "scenario_extracted = [
     (''principalInvestigator'',
        \<lparr>ev_value = ''Dr. Jane Smith'', ev_confidence = 0.75,
         ev_pattern = toString (principalInvestigator_patterns ! 0), ev_method = ''regex''\<rparr>),
     (''phone'',
        \<lparr>ev_value = ''(555) 123-4567'', ev_confidence = 0.85,
         ev_pattern = toString (phone_patterns ! 0), ev_method = ''regex''\<rparr>),
     (''email'',
        \<lparr>ev_value = ''jane@hosp.org'', ev_confidence = 0.75,
         ev_pattern = toString (email_patterns ! 0), ev_method = ''regex''\<rparr>)
   ]"

definition email_profile :: string where
  "email_profile = ''Email: a@b.io''"

definition email_profile_extracted :: extracted where
  "email_profile_extracted = [
     (''email'',
        \<lparr>ev_value = ''a@b.io'', ev_confidence = 0.65,
         ev_pattern = toString (email_patterns ! 0), ev_method = ''regex''\<rparr>)
   ]"

definition two_lines :: string where
  "two_lines = ''fax: soon'' @ [newline] @ ''ein: 12''"

definition email_slot :: FormField where
  "email_slot = \<lparr>f_id = ''contact_email'', f_name = ''contact_email'', f_type = ''email'',
     f_label = Some ''Email'', f_context = None, f_searchText = Some ''contact email email'',
     f_fieldCategory = Some ''email''\<rparr>"

definition date_slot :: FormField where
  "date_slot = \<lparr>f_id = ''dob'', f_name = ''dob'', f_type = ''date'',
     f_label = None, f_context = None, f_searchText = Some ''dob dob'',
     f_fieldCategory = Some ''date''\<rparr>"

definition sure_mapping :: "string \<Rightarrow> Mapping" where
  "sure_mapping i = \<lparr>mp_fieldId = i, mp_fieldName = i, mp_fieldType = ''text'',
      mp_mappedValue = ''x'', mp_confidence = 1.0, mp_extractedFrom = ''email''\<rparr>"

definition zip_match :: match where
  "zip_match = \<lparr>m_whole = ''zip: 12345'', m_groups = [(1, ''12345'')]\<rparr>"

definition accepted3 :: "js_value list" where
  "accepted3 = [Str ''abcxyz'', Str ''defxyz'', Str ''ghixyz'']"

text \<open>Two elements that differ in value, type and attributes.\<close>

definition name_input :: Element where
  "name_input = \<lparr>el_name = ''first_name'', el_id = ''FN-1'', el_placeholder = ''  '',
     el_className = ''form-control  big'', el_type = ''text'', el_value = ''Jane'',
     el_attributes = [(''title'', ''Your  Name!''), (''required'', '''')]\<rparr>"

definition other_input :: Element where
  "other_input = name_input\<lparr>el_value := ''Bob'', el_type := ''search'',
        el_attributes := [(''title'', ''Your  Name!''), (''maxlength'', ''20'')]\<rparr>"

section \<open>The pattern library prints back to the source\<close>

text \<open>
  Each regular expression of the model, printed by \<open>toString\<close>, is the text of the literal
  in the source.
\<close>

lemma principalInvestigator_patterns_toString:
  "map toString principalInvestigator_patterns = [
     ''/principal'' @ [bslash] @ ''s+investigator[:'' @ [bslash] @ ''s]*([^,'' @ [bslash]
         @ ''n]+)/i'',
     ''/pi[:'' @ [bslash] @ ''s]*([^,'' @ [bslash] @ ''n]+)/i'',
     ''/dr'' @ [bslash] @ ''.?'' @ [bslash] @ ''s+([^,'' @ [bslash] @ ''n]+)/i'',
     ''/investigator[:'' @ [bslash] @ ''s]*([^,'' @ [bslash] @ ''n]+)/i'',
     ''/physician[:'' @ [bslash] @ ''s]*([^,'' @ [bslash] @ ''n]+)/i'',
     ''/doctor[:'' @ [bslash] @ ''s]*([^,'' @ [bslash] @ ''n]+)/i''
   ]"
  by code_simp

lemma firstName_patterns_toString:
  "map toString firstName_patterns = [
     ''/first'' @ [bslash] @ ''s+name[:'' @ [bslash] @ ''s]*([^,'' @ [bslash] @ ''n]+)/i'',
     ''/fname[:'' @ [bslash] @ ''s]*([^,'' @ [bslash] @ ''n]+)/i'',
     ''/given'' @ [bslash] @ ''s+name[:'' @ [bslash] @ ''s]*([^,'' @ [bslash] @ ''n]+)/i''
   ]"
  by code_simp

lemma lastName_patterns_toString:
  "map toString lastName_patterns = [
     ''/last'' @ [bslash] @ ''s+name[:'' @ [bslash] @ ''s]*([^,'' @ [bslash] @ ''n]+)/i'',
     ''/lname[:'' @ [bslash] @ ''s]*([^,'' @ [bslash] @ ''n]+)/i'',
     ''/surname[:'' @ [bslash] @ ''s]*([^,'' @ [bslash] @ ''n]+)/i'',
     ''/family'' @ [bslash] @ ''s+name[:'' @ [bslash] @ ''s]*([^,'' @ [bslash] @ ''n]+)/i''
   ]"
  by code_simp

lemma fullName_patterns_toString:
  "map toString fullName_patterns = [
     ''/name[:'' @ [bslash] @ ''s]*([^,'' @ [bslash] @ ''n]+)/i'',
     ''/contact[:'' @ [bslash] @ ''s]*([^,'' @ [bslash] @ ''n]+)/i''
   ]"
  by code_simp

lemma phone_patterns_toString:
  "map toString phone_patterns = [
     ''/phone[:'' @ [bslash] @ ''s]*('' @ [bslash] @ ''(?['' @ [bslash] @ ''d'' @ [bslash]
         @ ''s'' @ [bslash] @ ''-'' @ [bslash] @ ''.'' @ [bslash] @ ''('' @ [bslash]
         @ '')]{10,})/i'',
     ''/tel[:'' @ [bslash] @ ''s]*('' @ [bslash] @ ''(?['' @ [bslash] @ ''d'' @ [bslash]
         @ ''s'' @ [bslash] @ ''-'' @ [bslash] @ ''.'' @ [bslash] @ ''('' @ [bslash]
         @ '')]{10,})/i'',
     ''/telephone[:'' @ [bslash] @ ''s]*('' @ [bslash] @ ''(?['' @ [bslash] @ ''d'' @ [bslash]
         @ ''s'' @ [bslash] @ ''-'' @ [bslash] @ ''.'' @ [bslash] @ ''('' @ [bslash]
         @ '')]{10,})/i'',
     ''/mobile[:'' @ [bslash] @ ''s]*('' @ [bslash] @ ''(?['' @ [bslash] @ ''d'' @ [bslash]
         @ ''s'' @ [bslash] @ ''-'' @ [bslash] @ ''.'' @ [bslash] @ ''('' @ [bslash]
         @ '')]{10,})/i'',
     ''/cell[:'' @ [bslash] @ ''s]*('' @ [bslash] @ ''(?['' @ [bslash] @ ''d'' @ [bslash]
         @ ''s'' @ [bslash] @ ''-'' @ [bslash] @ ''.'' @ [bslash] @ ''('' @ [bslash]
         @ '')]{10,})/i'',
     ''/('' @ [bslash] @ ''('' @ [bslash] @ ''d{3}'' @ [bslash] @ '')'' @ [bslash] @ ''s*''
         @ [bslash] @ ''d{3}-'' @ [bslash] @ ''d{4})/'',
     ''/('' @ [bslash] @ ''d{3}[-'' @ [bslash] @ ''.'' @ [bslash] @ ''s]?'' @ [bslash]
         @ ''d{3}[-'' @ [bslash] @ ''.'' @ [bslash] @ ''s]?'' @ [bslash] @ ''d{4})/''
   ]"
  by code_simp

lemma email_patterns_toString:
  "map toString email_patterns = [
     ''/email[:'' @ [bslash] @ ''s]*([a-zA-Z0-9._%+-]+@[a-zA-Z0-9.-]+'' @ [bslash]
         @ ''.[a-zA-Z]{2,})/i'',
     ''/mail[:'' @ [bslash] @ ''s]*([a-zA-Z0-9._%+-]+@[a-zA-Z0-9.-]+'' @ [bslash]
         @ ''.[a-zA-Z]{2,})/i'',
     ''/e-mail[:'' @ [bslash] @ ''s]*([a-zA-Z0-9._%+-]+@[a-zA-Z0-9.-]+'' @ [bslash]
         @ ''.[a-zA-Z]{2,})/i'',
     ''/([a-zA-Z0-9._%+-]+@[a-zA-Z0-9.-]+'' @ [bslash] @ ''.[a-zA-Z]{2,})/''
   ]"
  by code_simp

lemma fax_patterns_toString:
  "map toString fax_patterns = [
     ''/fax[:'' @ [bslash] @ ''s]*('' @ [bslash] @ ''(?['' @ [bslash] @ ''d'' @ [bslash]
         @ ''s'' @ [bslash] @ ''-'' @ [bslash] @ ''.'' @ [bslash] @ ''('' @ [bslash]
         @ '')]{10,})/i'',
     ''/facsimile[:'' @ [bslash] @ ''s]*('' @ [bslash] @ ''(?['' @ [bslash] @ ''d'' @ [bslash]
         @ ''s'' @ [bslash] @ ''-'' @ [bslash] @ ''.'' @ [bslash] @ ''('' @ [bslash]
         @ '')]{10,})/i''
   ]"
  by code_simp

lemma address_patterns_toString:
  "map toString address_patterns = [
     ''/address[:'' @ [bslash] @ ''s]*([^,'' @ [bslash] @ ''n]+(?:,'' @ [bslash] @ ''s*[^,''
         @ [bslash] @ ''n]+)*)/i'',
     ''/street[:'' @ [bslash] @ ''s]*([^,'' @ [bslash] @ ''n]+(?:,'' @ [bslash] @ ''s*[^,''
         @ [bslash] @ ''n]+)*)/i'',
     ''/location[:'' @ [bslash] @ ''s]*([^,'' @ [bslash] @ ''n]+(?:,'' @ [bslash] @ ''s*[^,''
         @ [bslash] @ ''n]+)*)/i'',
     ''/('' @ [bslash] @ ''d+'' @ [bslash] @ ''s+[^,'' @ [bslash] @ ''n]+(?:,'' @ [bslash]
         @ ''s*[^,'' @ [bslash] @ ''n]+)*)/''
   ]"
  by code_simp

lemma city_patterns_toString:
  "map toString city_patterns = [
     ''/city[:'' @ [bslash] @ ''s]*([^,'' @ [bslash] @ ''n]+)/i'',
     ''/town[:'' @ [bslash] @ ''s]*([^,'' @ [bslash] @ ''n]+)/i'',
     ''/,'' @ [bslash] @ ''s*([A-Za-z'' @ [bslash] @ ''s]+),'' @ [bslash] @ ''s*[A-Z]{2}/'',
     ''/address[^,'' @ [bslash] @ ''n]*,'' @ [bslash] @ ''s*([^,'' @ [bslash] @ ''n]+),/i''
   ]"
  by code_simp

lemma state_patterns_toString:
  "map toString state_patterns = [
     ''/state[:'' @ [bslash] @ ''s]*([A-Z]{2}|[A-Za-z'' @ [bslash] @ ''s]+)/i'',
     ''/province[:'' @ [bslash] @ ''s]*([A-Z]{2}|[A-Za-z'' @ [bslash] @ ''s]+)/i'',
     ''/,'' @ [bslash] @ ''s*([A-Z]{2})'' @ [bslash] @ ''s+'' @ [bslash] @ ''d{5}/'',
     ''/,'' @ [bslash] @ ''s*([A-Za-z'' @ [bslash] @ ''s]+)'' @ [bslash] @ ''s+'' @ [bslash]
         @ ''d{5}/''
   ]"
  by code_simp

lemma zipCode_patterns_toString:
  "map toString zipCode_patterns = [
     ''/zip[:'' @ [bslash] @ ''s]*('' @ [bslash] @ ''d{5}(?:-'' @ [bslash] @ ''d{4})?)/i'',
     ''/postal[:'' @ [bslash] @ ''s]*('' @ [bslash] @ ''d{5}(?:-'' @ [bslash] @ ''d{4})?)/i'',
     ''/zip'' @ [bslash] @ ''s+code[:'' @ [bslash] @ ''s]*('' @ [bslash] @ ''d{5}(?:-''
         @ [bslash] @ ''d{4})?)/i'',
     ''/('' @ [bslash] @ ''d{5}(?:-'' @ [bslash] @ ''d{4})?)/''
   ]"
  by code_simp

lemma country_patterns_toString:
  "map toString country_patterns = [
     ''/country[:'' @ [bslash] @ ''s]*([^,'' @ [bslash] @ ''n]+)/i'',
     ''/nation[:'' @ [bslash] @ ''s]*([^,'' @ [bslash] @ ''n]+)/i''
   ]"
  by code_simp

lemma institutionName_patterns_toString:
  "map toString institutionName_patterns = [
     ''/institution[:'' @ [bslash] @ ''s]*([^,'' @ [bslash] @ ''n]+)/i'',
     ''/hospital[:'' @ [bslash] @ ''s]*([^,'' @ [bslash] @ ''n]+)/i'',
     ''/center[:'' @ [bslash] @ ''s]*([^,'' @ [bslash] @ ''n]+)/i'',
     ''/centre[:'' @ [bslash] @ ''s]*([^,'' @ [bslash] @ ''n]+)/i'',
     ''/clinic[:'' @ [bslash] @ ''s]*([^,'' @ [bslash] @ ''n]+)/i'',
     ''/university[:'' @ [bslash] @ ''s]*([^,'' @ [bslash] @ ''n]+)/i'',
     ''/college[:'' @ [bslash] @ ''s]*([^,'' @ [bslash] @ ''n]+)/i'',
     ''/organization[:'' @ [bslash] @ ''s]*([^,'' @ [bslash] @ ''n]+)/i'',
     ''/organisation[:'' @ [bslash] @ ''s]*([^,'' @ [bslash] @ ''n]+)/i'',
     ''/company[:'' @ [bslash] @ ''s]*([^,'' @ [bslash] @ ''n]+)/i''
   ]"
  by code_simp

lemma department_patterns_toString:
  "map toString department_patterns = [
     ''/department[:'' @ [bslash] @ ''s]*([^,'' @ [bslash] @ ''n]+)/i'',
     ''/dept[:'' @ [bslash] @ ''s]*([^,'' @ [bslash] @ ''n]+)/i'',
     ''/division[:'' @ [bslash] @ ''s]*([^,'' @ [bslash] @ ''n]+)/i'',
     ''/unit[:'' @ [bslash] @ ''s]*([^,'' @ [bslash] @ ''n]+)/i'',
     ''/section[:'' @ [bslash] @ ''s]*([^,'' @ [bslash] @ ''n]+)/i''
   ]"
  by code_simp

lemma irbContact_patterns_toString:
  "map toString irbContact_patterns = [
     ''/irb[:'' @ [bslash] @ ''s]*([^,'' @ [bslash] @ ''n]+)/i'',
     ''/institutional'' @ [bslash] @ ''s+review'' @ [bslash] @ ''s+board[:'' @ [bslash]
         @ ''s]*([^,'' @ [bslash] @ ''n]+)/i'',
     ''/ethics[:'' @ [bslash] @ ''s]*([^,'' @ [bslash] @ ''n]+)/i'',
     ''/review'' @ [bslash] @ ''s+board[:'' @ [bslash] @ ''s]*([^,'' @ [bslash] @ ''n]+)/i''
   ]"
  by code_simp

lemma licenseNumber_patterns_toString:
  "map toString licenseNumber_patterns = [
     ''/license[:'' @ [bslash] @ ''s]*([A-Z0-9'' @ [bslash] @ ''-]+)/i'',
     ''/licence[:'' @ [bslash] @ ''s]*([A-Z0-9'' @ [bslash] @ ''-]+)/i'',
     ''/license'' @ [bslash] @ ''s+number[:'' @ [bslash] @ ''s]*([A-Z0-9'' @ [bslash]
         @ ''-]+)/i'',
     ''/lic[:'' @ [bslash] @ ''s]*([A-Z0-9'' @ [bslash] @ ''-]+)/i'',
     ''/permit[:'' @ [bslash] @ ''s]*([A-Z0-9'' @ [bslash] @ ''-]+)/i''
   ]"
  by code_simp

lemma deaNumber_patterns_toString:
  "map toString deaNumber_patterns = [
     ''/dea[:'' @ [bslash] @ ''s]*([A-Z0-9'' @ [bslash] @ ''-]+)/i'',
     ''/dea'' @ [bslash] @ ''s+number[:'' @ [bslash] @ ''s]*([A-Z0-9'' @ [bslash] @ ''-]+)/i'',
     ''/drug'' @ [bslash] @ ''s+enforcement[:'' @ [bslash] @ ''s]*([A-Z0-9'' @ [bslash]
         @ ''-]+)/i''
   ]"
  by code_simp

lemma taxId_patterns_toString:
  "map toString taxId_patterns = [
     ''/tax'' @ [bslash] @ ''s+id[:'' @ [bslash] @ ''s]*([0-9'' @ [bslash] @ ''-]+)/i'',
     ''/ein[:'' @ [bslash] @ ''s]*([0-9'' @ [bslash] @ ''-]+)/i'',
     ''/federal'' @ [bslash] @ ''s+id[:'' @ [bslash] @ ''s]*([0-9'' @ [bslash] @ ''-]+)/i'',
     ''/tax'' @ [bslash] @ ''s+number[:'' @ [bslash] @ ''s]*([0-9'' @ [bslash] @ ''-]+)/i''
   ]"
  by code_simp

lemma npiNumber_patterns_toString:
  "map toString npiNumber_patterns = [
     ''/npi[:'' @ [bslash] @ ''s]*([0-9]+)/i'',
     ''/npi'' @ [bslash] @ ''s+number[:'' @ [bslash] @ ''s]*([0-9]+)/i'',
     ''/national'' @ [bslash] @ ''s+provider[:'' @ [bslash] @ ''s]*([0-9]+)/i''
   ]"
  by code_simp

lemma coordinator_patterns_toString:
  "map toString coordinator_patterns = [
     ''/coordinator[:'' @ [bslash] @ ''s]*([^,'' @ [bslash] @ ''n]+)/i'',
     ''/study'' @ [bslash] @ ''s+coordinator[:'' @ [bslash] @ ''s]*([^,'' @ [bslash] @ ''n]+)/i'',
     ''/research'' @ [bslash] @ ''s+coordinator[:'' @ [bslash] @ ''s]*([^,'' @ [bslash]
         @ ''n]+)/i'',
     ''/clinical'' @ [bslash] @ ''s+coordinator[:'' @ [bslash] @ ''s]*([^,'' @ [bslash]
         @ ''n]+)/i'',
     ''/trial'' @ [bslash] @ ''s+coordinator[:'' @ [bslash] @ ''s]*([^,'' @ [bslash] @ ''n]+)/i''
   ]"
  by code_simp

lemma subInvestigator_patterns_toString:
  "map toString subInvestigator_patterns = [
     ''/sub[:'' @ [bslash] @ ''s]*investigator[:'' @ [bslash] @ ''s]*([^,'' @ [bslash]
         @ ''n]+)/i'',
     ''/co[:'' @ [bslash] @ ''s]*investigator[:'' @ [bslash] @ ''s]*([^,'' @ [bslash]
         @ ''n]+)/i'',
     ''/associate[:'' @ [bslash] @ ''s]*investigator[:'' @ [bslash] @ ''s]*([^,'' @ [bslash]
         @ ''n]+)/i'',
     ''/assistant[:'' @ [bslash] @ ''s]*investigator[:'' @ [bslash] @ ''s]*([^,'' @ [bslash]
         @ ''n]+)/i''
   ]"
  by code_simp

lemma title_patterns_toString:
  "map toString title_patterns = [
     ''/title[:'' @ [bslash] @ ''s]*([^,'' @ [bslash] @ ''n]+)/i'',
     ''/position[:'' @ [bslash] @ ''s]*([^,'' @ [bslash] @ ''n]+)/i'',
     ''/role[:'' @ [bslash] @ ''s]*([^,'' @ [bslash] @ ''n]+)/i'',
     ''/designation[:'' @ [bslash] @ ''s]*([^,'' @ [bslash] @ ''n]+)/i''
   ]"
  by code_simp

lemma website_patterns_toString:
  "map toString website_patterns = [
     ''/website[:'' @ [bslash] @ ''s]*([^'' @ [bslash] @ ''s'' @ [bslash] @ ''n]+)/i'',
     ''/url[:'' @ [bslash] @ ''s]*([^'' @ [bslash] @ ''s'' @ [bslash] @ ''n]+)/i'',
     ''/(https?:'' @ [bslash] @ ''/'' @ [bslash] @ ''/[^'' @ [bslash] @ ''s'' @ [bslash]
         @ ''n]+)/i''
   ]"
  by code_simp

lemma specialty_patterns_toString:
  "map toString specialty_patterns = [
     ''/specialty[:'' @ [bslash] @ ''s]*([^,'' @ [bslash] @ ''n]+)/i'',
     ''/specialization[:'' @ [bslash] @ ''s]*([^,'' @ [bslash] @ ''n]+)/i'',
     ''/focus[:'' @ [bslash] @ ''s]*([^,'' @ [bslash] @ ''n]+)/i''
   ]"
  by code_simp

lemma flexible_regex_toString:
  "toString colon_regex = ''/^([^:]+):'' @ [bslash] @ ''s*(.+)$/''"
  "toString standalone_email_regex =
     ''/([a-zA-Z0-9._%+-]+@[a-zA-Z0-9.-]+'' @ [bslash] @ ''.[a-zA-Z]{2,})/''"
  "toString standalone_phone_regex =
     ''/('' @ [bslash] @ ''(?['' @ [bslash] @ ''d'' @ [bslash] @ ''s'' @ [bslash] @ ''-'' @ [bslash]
       @ ''.'' @ [bslash] @ ''('' @ [bslash] @ '')]{10,})/''"
  by code_simp+

lemma wordRegex_toString:
  "toString (wordRegex ''mail'') = ''/'' @ [bslash] @ ''bmail'' @ [bslash] @ ''b/i''"
  by code_simp

lemma fieldPatterns_keys_distinct: "distinct (map fst fieldPatterns)"
  by (simp add: fieldPatterns_def)

section \<open>ConfidenceCalculator\<close>

lemma zip_pattern_match: "str_match ''zip: 12345'' (zipCode_patterns ! 0) = Some zip_match"
  by code_simp

lemma zip_pattern_text:
  "toString (zipCode_patterns ! 0) =
     ''/zip[:'' @ [bslash] @ ''s]*('' @ [bslash] @ ''d{5}(?:-'' @ [bslash] @ ''d{4})?)/i''"
  by code_simp

text \<open>
  C4, as stated, fails: the expression \<^verbatim>\<open>/zip[:\s]*(\d{5}(?:-\d{4})?)/i\<close> of the
  library has three quantifiers and no \<^verbatim>\<open>+\<close>. On the text \<^verbatim>\<open>zip: 12345\<close>
  the code gives the confidence 0.75, without the bonus that the claim gives for a
  quantifier, which would make it 0.85.
\<close>

theorem quantifier_bonus_counterexample:
  "str_match ''zip: 12345'' (zipCode_patterns ! 0) = Some zip_match
   \<and> has_quantifier (node (zipCode_patterns ! 0))
   \<and> calculatePatternConfidence (zipCode_patterns ! 0) zip_match = 0.75
   \<and> spec_patternConfidence (zipCode_patterns ! 0) zip_match = 0.85"
  by code_simp

text \<open>
  C4, amended: the pattern confidence is 0.5, plus 0.2 if the source of the pattern
  contains the text \<^verbatim>\<open>\d\<close>, plus 0.1 if it contains the character \<^verbatim>\<open>+\<close>
  (the only quantifier that counts), plus 0.1 if it contains the text \<^verbatim>\<open>[A-Z]\<close>,
  minus 0.05 if the pattern is case-insensitive, plus 0.1 if the first capture is longer
  than 3 characters and 0.1 more if it is longer than 10, clamped to at most 1; the result
  lies in [0,1].
\<close>

theorem pattern_confidence_formula:
  "calculatePatternConfidence p m =
     min 1.0 (0.5
       + bonus (includes_str (source p) [bslash, CHR ''d'']) 0.2
       + bonus (includes_str (source p) ''+'') 0.1
       + bonus (includes_str (source p) ''[A-Z]'') 0.1
       - bonus (flag_i p) 0.05
       + bonus (longer_than (group m 1) 3) 0.1
       + bonus (longer_than (group m 1) 10) 0.1)
   \<and> 0 \<le> calculatePatternConfidence p m \<and> calculatePatternConfidence p m \<le> 1"
  by (simp add: calculatePatternConfidence_def Let_def bonus_def flags_def)

lemma tax_pattern_facts:
  "includes_str (source (taxId_patterns ! 0)) ''+''
   \<and> \<not> includes_str (source (taxId_patterns ! 0)) [bslash, CHR ''d'']
   \<and> \<not> includes_str (source (taxId_patterns ! 0)) ''[A-Z]''
   \<and> flag_i (taxId_patterns ! 0)"
  by code_simp

theorem pattern_confidence_formula_witness:
  "calculatePatternConfidence (taxId_patterns ! 0)
      \<lparr>m_whole = ''Tax ID: 12-3456789'', m_groups = [(1, ''12-3456789'')]\<rparr> = 0.65"
  using pattern_confidence_formula [of "taxId_patterns ! 0"
      "\<lparr>m_whole = ''Tax ID: 12-3456789'', m_groups = [(1, ''12-3456789'')]\<rparr>"]
    tax_pattern_facts
  by (simp add: bonus_def longer_than_def group_def)

lemma foldl_confidence_sum:
  "foldl (\<lambda>sum mapping. sum + mp_confidence mapping) a ms = a + sum_list (map mp_confidence ms)"
  by (induction ms arbitrary: a) auto

lemma sum_list_all_one:
  "(\<forall>m\<in>set ms. mp_confidence m = 1) \<Longrightarrow> sum_list (map mp_confidence ms) = real (length ms)"
  by (induction ms) auto

text \<open>
  C5: the overall confidence is the arithmetic mean of the confidences of the
  assignments; it is 0 for the empty list, and 1 for a non-empty list of assignments that
  all have confidence 1.
\<close>

theorem overall_confidence_is_mean:
  "calculateOverallConfidence ms =
     (if ms = [] then 0 else sum_list (map mp_confidence ms) / real (length ms))
   \<and> calculateOverallConfidence [] = 0
   \<and> (ms \<noteq> [] \<and> (\<forall>m\<in>set ms. mp_confidence m = 1) \<longrightarrow> calculateOverallConfidence ms = 1)"
proof (intro conjI impI)
  show mean: "calculateOverallConfidence ms =
     (if ms = [] then 0 else sum_list (map mp_confidence ms) / real (length ms))"
    by (simp add: calculateOverallConfidence_def foldl_confidence_sum)
  show "calculateOverallConfidence [] = 0"
    by (simp add: calculateOverallConfidence_def)
  assume h: "ms \<noteq> [] \<and> (\<forall>m\<in>set ms. mp_confidence m = 1)"
  then have "sum_list (map mp_confidence ms) = real (length ms)"
    by (simp add: sum_list_all_one)
  with h mean show "calculateOverallConfidence ms = 1"
    by simp
qed

theorem overall_confidence_is_mean_witness:
  "calculateOverallConfidence [sure_mapping ''a'', sure_mapping ''b'', sure_mapping ''c''] = 1
   \<and> calculateOverallConfidence
        [sure_mapping ''a'', (sure_mapping ''b'')\<lparr>mp_confidence := 0.5\<rparr>] = 0.75"
  using overall_confidence_is_mean
      [of "[sure_mapping ''a'', sure_mapping ''b'', sure_mapping ''c'']"]
    overall_confidence_is_mean
      [of "[sure_mapping ''a'', (sure_mapping ''b'')\<lparr>mp_confidence := 0.5\<rparr>]"]
  by (simp add: sure_mapping_def)

section \<open>Type compatibility\<close>

text \<open>The keys of \<^verbatim>\<open>extracted\<close> are entity types, and these are keys of their own.\<close>

lemma entity_keys_all_own:
  "list_all (\<lambda>k. k \<notin> set object_prototype_keys) entity_keys"
  by (simp add: entity_keys_def fieldPatterns_def inherited_mappings_def
      object_prototype_keys_def)

lemma entity_keys_own: "k \<in> set entity_keys \<Longrightarrow> k \<notin> set object_prototype_keys"
  using entity_keys_all_own by (simp add: list_all_iff)

lemma getFieldMapping_entity: "getFieldMapping key = Some t \<Longrightarrow> t \<in> set entity_keys"
proof -
  assume a: "getFieldMapping key = Some t"
  have own: "snd ` set field_mappings \<subseteq> set entity_keys"
    by (simp add: field_mappings_def entity_keys_def fieldPatterns_def)
  have inh: "snd ` set inherited_mappings \<subseteq> set entity_keys"
    by (simp add: entity_keys_def)
  show ?thesis
  proof (cases "map_of field_mappings key")
    case None
    with a have "map_of inherited_mappings key = Some t" by (simp add: getFieldMapping_def)
    then have "(key, t) \<in> set inherited_mappings" by (rule map_of_SomeD)
    then have "t \<in> snd ` set inherited_mappings" by force
    with inh show ?thesis by blast
  next
    case (Some u)
    with a have "u = t" by (simp add: getFieldMapping_def split: if_splits)
    with Some have "(key, t) \<in> set field_mappings" by (simp add: map_of_SomeD)
    then have "t \<in> snd ` set field_mappings" by force
    with own show ?thesis by blast
  qed
qed

lemma regex_pass_keys: "fst ` set (regex_pass text) \<subseteq> set entity_keys"
proof -
  have step: "fst ` set (regex_step text ex e) \<subseteq> insert (fst e) (fst ` set ex)" for ex e
    by (auto simp add: regex_step_def dom_update split: option.splits)
  have "fst ` set (foldl (regex_step text) ex es) \<subseteq> fst ` set es \<union> fst ` set ex" for es ex
  proof (induction es arbitrary: ex)
    case Nil
    show ?case by simp
  next
    case (Cons e es)
    from Cons.IH [of "regex_step text ex e"] step [of ex e] show ?case by auto
  qed
  from this [of "[]" fieldPatterns] show ?thesis
    by (auto simp add: regex_pass_def entity_keys_def)
qed

lemma flexible_line_keys:
  "fst ` set ex \<subseteq> set entity_keys \<Longrightarrow> fst ` set (flexible_line ex line) \<subseteq> set entity_keys"
proof -
  assume a: "fst ` set ex \<subseteq> set entity_keys"
  have email: "''email'' \<in> set entity_keys" and phone: "''phone'' \<in> set entity_keys"
    by (simp_all add: entity_keys_def fieldPatterns_def)
  from a have c: "fst ` set (colon_step ex line) \<subseteq> set entity_keys"
    by (auto simp add: colon_step_def Let_def dom_update dest: getFieldMapping_entity
        split: option.splits if_splits)
  from c email have e: "fst ` set (email_step (colon_step ex line) line) \<subseteq> set entity_keys"
    by (auto simp add: email_step_def dom_update split: option.splits if_splits)
  from e phone show ?thesis
    by (auto simp add: flexible_line_def phone_step_def dom_update
        split: option.splits if_splits)
qed

lemma extracted_keys: "fst ` set (extractStructuredData text) \<subseteq> set entity_keys"
proof -
  have "fst ` set ex \<subseteq> set entity_keys
        \<Longrightarrow> fst ` set (foldl flexible_line ex ls) \<subseteq> set entity_keys" for ls ex
  proof (induction ls arbitrary: ex)
    case Nil
    then show ?case by simp
  next
    case (Cons l ls)
    from Cons.prems have "fst ` set (flexible_line ex l) \<subseteq> set entity_keys"
      by (rule flexible_line_keys)
    then show ?case using Cons.IH [of "flexible_line ex l"] by simp
  qed
  with regex_pass_keys [of "text"] show ?thesis
    by (simp add: extractStructuredData_def extractFlexiblePatterns_def)
qed

lemma prototype_keys_no_row:
  "list_all (\<lambda>k. k \<notin> set (map fst compatibility)) object_prototype_keys"
  by (simp add: object_prototype_keys_def compatibility_def)

lemma prototype_key_no_row:
  "t \<in> set object_prototype_keys \<Longrightarrow> map_of compatibility t = None"
  using prototype_keys_no_row by (simp add: list_all_iff map_of_eq_None_iff)

lemma or_number_entry:
  "\<forall>v\<in>snd ` set row. v \<noteq> 0 \<Longrightarrow>
     or_number (map_of row d) (or_number (map_of row s) c) =
       (case map_of row d of
          Some factor \<Rightarrow> factor
        | None \<Rightarrow> (case map_of row s of Some factor \<Rightarrow> factor | None \<Rightarrow> c))"
proof -
  assume nz: "\<forall>v\<in>snd ` set row. v \<noteq> 0"
  have "v \<noteq> 0" if "map_of row k = Some v" for k v
  proof -
    from that have "(k, v) \<in> set row" by (rule map_of_SomeD)
    then have "v \<in> snd ` set row" by force
    with nz show ?thesis by blast
  qed
  then show ?thesis
    by (auto simp add: or_number_def split: option.splits)
qed

lemma compatibility_nonzero: "\<forall>row\<in>snd ` set compatibility. \<forall>v\<in>snd ` set row. v \<noteq> 0"
  by (simp add: compatibility_def)

lemma compatibility_rows:
  "map_of compatibility t = Some row \<Longrightarrow>
     or_number (map_of row d) (or_number (map_of row ''*'') 0.4) =
       (case map_of row d of
          Some factor \<Rightarrow> factor
        | None \<Rightarrow> (case map_of row ''*'' of Some factor \<Rightarrow> factor | None \<Rightarrow> 0.4))"
proof -
  assume "map_of compatibility t = Some row"
  then have "(t, row) \<in> set compatibility" by (rule map_of_SomeD)
  then have "row \<in> snd ` set compatibility" by force
  with compatibility_nonzero have "\<forall>v\<in>snd ` set row. v \<noteq> 0" by blast
  then show ?thesis by (rule or_number_entry)
qed

text \<open>
  C8, as stated, fails for a declared type that is not in the table: the type
  \<^verbatim>\<open>password\<close> is not, and names no inherited property either, and its factor is
  0.8, that of the row \<^verbatim>\<open>input\<close>, not a default near 0.6. Nor does every factor come
  from the table: the row \<^verbatim>\<open>email\<close> has no entry for the entity type
  \<^verbatim>\<open>phone\<close> and no entry \<^verbatim>\<open>*\<close>, and the factor of that pair is 0.4.
\<close>

theorem unknown_type_factor_counterexample:
  "map_of compatibility ''password'' = None
   \<and> getTypeCompatibility ''password'' ''email'' = 0.8
   \<and> \<bar>getTypeCompatibility ''password'' ''email'' - 0.6\<bar> \<ge> 0.2
   \<and> ''password'' \<notin> set object_prototype_keys
   \<and> ''email'' \<in> set entity_keys \<and> ''phone'' \<in> set entity_keys
   \<and> map_of compatibility ''email'' = Some [(''email'', 1.0), (''fullName'', 0.3)]
   \<and> getTypeCompatibility ''email'' ''phone'' = 0.4"
  by (simp add: getTypeCompatibility_def compatibility_lookup_def compatibility_def
      or_number_def object_prototype_keys_def entity_keys_def fieldPatterns_def)

text \<open>
  C8, amended. For a field type and an entity type (a key that \<^verbatim>\<open>extracted\<close> can
  have): if the type has a row in the table, the factor is the entry of the row for the
  entity type, else the entry \<^verbatim>\<open>*\<close> of the row, else 0.4; if the type has no row
  and names no inherited property, the factor is 0.8, that of the row \<^verbatim>\<open>input\<close>; if
  the type names an inherited property, such as \<^verbatim>\<open>constructor\<close>, the factor is 0.4.
  A field of type \<^verbatim>\<open>text\<close> gets one and the same factor for every entity type, and
  it lies between 0.8 and 0.9; a field of type \<^verbatim>\<open>email\<close> gets 1.0 for the entity
  type \<^verbatim>\<open>email\<close>.
\<close>

theorem type_compatibility_table:
  "(dataType \<in> set entity_keys \<longrightarrow>
      (\<forall>row. map_of compatibility formFieldType = Some row \<longrightarrow>
         getTypeCompatibility formFieldType dataType =
           (case map_of row dataType of
              Some factor \<Rightarrow> factor
            | None \<Rightarrow> (case map_of row ''*'' of Some factor \<Rightarrow> factor | None \<Rightarrow> 0.4)))
      \<and> (map_of compatibility formFieldType = None
           \<and> formFieldType \<notin> set object_prototype_keys \<longrightarrow>
           getTypeCompatibility formFieldType dataType = 0.8)
      \<and> (formFieldType \<in> set object_prototype_keys \<longrightarrow>
           getTypeCompatibility formFieldType dataType = 0.4)
      \<and> 0.8 \<le> getTypeCompatibility ''text'' dataType
      \<and> getTypeCompatibility ''text'' dataType \<le> 0.9
      \<and> (otherType \<in> set entity_keys \<longrightarrow>
           getTypeCompatibility ''text'' otherType = getTypeCompatibility ''text'' dataType))
   \<and> getTypeCompatibility ''email'' ''email'' = 1.0"
proof -
  have row: "getTypeCompatibility formFieldType dataType =
      (case map_of row dataType of
         Some factor \<Rightarrow> factor
       | None \<Rightarrow> (case map_of row ''*'' of Some factor \<Rightarrow> factor | None \<Rightarrow> 0.4))"
    if "map_of compatibility formFieldType = Some row" for row
    using that compatibility_rows [of formFieldType row dataType]
    by (simp add: getTypeCompatibility_def compatibility_lookup_def)
  have other: "getTypeCompatibility formFieldType dataType = 0.8"
    if "map_of compatibility formFieldType = None"
      and "formFieldType \<notin> set object_prototype_keys"
    using that
    by (simp add: getTypeCompatibility_def compatibility_lookup_def)
      (simp add: compatibility_def or_number_def)
  have inherited: "getTypeCompatibility formFieldType dataType = 0.4"
    if "formFieldType \<in> set object_prototype_keys"
    using that prototype_key_no_row [of formFieldType]
    by (simp add: getTypeCompatibility_def compatibility_lookup_def)
  have flat: "getTypeCompatibility ''text'' d = 0.9" for d
    by (simp add: getTypeCompatibility_def compatibility_lookup_def compatibility_def
        or_number_def)
  have email: "getTypeCompatibility ''email'' ''email'' = 1.0"
    by (simp add: getTypeCompatibility_def compatibility_lookup_def compatibility_def
        or_number_def)
  from row other inherited email show ?thesis by (simp add: flat)
qed

theorem type_compatibility_table_witness:
  "''phone'' \<in> set entity_keys \<and> ''fax'' \<in> set entity_keys
   \<and> map_of compatibility ''password'' = None
   \<and> ''password'' \<notin> set object_prototype_keys
   \<and> getTypeCompatibility ''password'' ''phone'' = 0.8
   \<and> ''constructor'' \<in> set object_prototype_keys
   \<and> getTypeCompatibility ''constructor'' ''phone'' = 0.4
   \<and> map_of compatibility ''email'' = Some [(''email'', 1.0), (''fullName'', 0.3)]
   \<and> getTypeCompatibility ''email'' ''phone'' = 0.4
   \<and> getTypeCompatibility ''text'' ''fax'' = getTypeCompatibility ''text'' ''phone''"
  using type_compatibility_table [of "''phone''" "''password''" "''fax''"]
    type_compatibility_table [of "''phone''" "''constructor''" "''fax''"]
    type_compatibility_table [of "''phone''" "''email''" "''fax''"]
  by (simp add: entity_keys_def fieldPatterns_def object_prototype_keys_def compatibility_def)

lemma getTypeCompatibility_range:
  "0.2 \<le> getTypeCompatibility t d \<and> getTypeCompatibility t d \<le> 1"
  by (simp add: getTypeCompatibility_def compatibility_lookup_def compatibility_def
      or_number_def)

section \<open>The match score and the best match\<close>

lemma keyword_fold_mono: "a \<le> foldl (keyword_step t) a ks"
proof (induction ks arbitrary: a)
  case Nil
  show ?case by simp
next
  case (Cons k ks)
  have "a \<le> keyword_step t a k" by (simp add: keyword_step_def)
  also have "\<dots> \<le> foldl (keyword_step t) (keyword_step t a k) ks" by (rule Cons.IH)
  finally show ?case by simp
qed

lemma abbrev_fold_mono: "a \<le> foldl (abbrev_step t) a ks"
proof (induction ks arbitrary: a)
  case Nil
  show ?case by simp
next
  case (Cons k ks)
  have "a \<le> abbrev_step t a k" by (simp add: abbrev_step_def)
  also have "\<dots> \<le> foldl (abbrev_step t) (abbrev_step t a k) ks" by (rule Cons.IH)
  finally show ?case by simp
qed

text \<open>The score that \<^verbatim>\<open>calculateFieldMatchScore\<close> returns is clamped to [0,1].\<close>

lemma calculateFieldMatchScore_range:
  "0 \<le> calculateFieldMatchScore t d ty c \<and> calculateFieldMatchScore t d ty c \<le> 1"
proof -
  let ?s1 = "foldl (keyword_step t) 0 (lookup_list keywordsTable d)"
  let ?s2 = "if includes_str t (toLowerCase d) then ?s1 + 0.6 else ?s1"
  let ?s3 = "foldl (abbrev_step t) ?s2 (lookup_list abbreviations d)"
  have "0 \<le> ?s1" by (rule keyword_fold_mono)
  then have "0 \<le> ?s2" by simp
  also have "?s2 \<le> ?s3" by (rule abbrev_fold_mono)
  finally have s3: "0 \<le> ?s3" .
  have "0 \<le> getTypeCompatibility ty d" using getTypeCompatibility_range [of ty d] by simp
  with s3 have "0 \<le> ?s3 * getTypeCompatibility ty d" by simp
  then show ?thesis
    by (simp add: calculateFieldMatchScore_def Let_def)
qed

text \<open>The score compared with the threshold lies in [0,1.3].\<close>

lemma matchScore_range: "0 \<le> matchScore f d \<and> matchScore f d \<le> 1.3"
  using calculateFieldMatchScore_range [of "fieldText f" d "f_type f" "fieldCategory f"]
  by (simp add: matchScore_def Let_def)

lemma email_profile_extraction: "extractStructuredData email_profile = email_profile_extracted"
  by code_simp

text \<open>
  C1 does not hold of the code. For the field \<open>email_slot\<close> (type and category
  \<^verbatim>\<open>email\<close>, name \<^verbatim>\<open>contact_email\<close>) and an extracted email,
  \<^verbatim>\<open>calculateFieldMatchScore\<close> returns the clamped score 1, \<^verbatim>\<open>findBestMatch\<close>
  then adds the category boost of 0.3, and the confidence of the assignment is 1.3; so is
  the overall confidence that \<^verbatim>\<open>processFormData\<close> returns for the profile
  \<^verbatim>\<open>Email: a@b.io\<close>.
\<close>

theorem boosted_confidence_exceeds_one:
  "calculateFieldMatchScore (fieldText email_slot) ''email'' ''email'' ''email'' = 1
   \<and> map_option ev_confidence (findBestMatch email_slot scenario_extracted) = Some 1.3
   \<and> map mp_confidence (generateFieldMappings [email_slot] scenario_extracted) = [1.3]
   \<and> map mp_confidence (getFieldMappings [email_slot] email_profile) = [1.3]
   \<and> snd (snd (processFormData [email_slot] email_profile)) = 1.3"
  unfolding getFieldMappings_def processFormData_def Let_def email_profile_extraction
  by code_simp

lemma best_inv_Nil: "best_inv f [] (0, None)"
  by (simp add: best_inv_def)

lemma best_inv_step:
  assumes "best_inv f ex acc"
  shows "best_inv f (ex @ [e]) (best_step f acc e)"
proof (cases "matchScore f (fst e) > fst acc \<and> matchScore f (fst e) > 0.15")
  case True
  then have step: "best_step f acc e =
      (matchScore f (fst e),
       Some \<lparr>ev_value = ev_value (snd e), ev_confidence = matchScore f (fst e),
          ev_pattern = ev_pattern (snd e), ev_method = ev_method (snd e),
          bm_fieldType = fst e\<rparr>)"
    by (simp add: best_step_def Let_def)
  have "(fst e, snd e) \<in> set (ex @ [e])" by simp
  with assms True show ?thesis
    unfolding best_inv_def step by (auto intro!: exI [of _ "snd e"])
next
  case False
  then have step: "best_step f acc e = acc"
    by (auto simp add: best_step_def Let_def)
  from assms False show ?thesis
    unfolding best_inv_def step by (auto split: option.splits)
qed

lemma best_inv_foldl: "best_inv f ex (foldl (best_step f) (0, None) ex)"
proof (induction ex rule: rev_induct)
  case Nil
  show ?case by (simp add: best_inv_Nil)
next
  case (snoc e ex)
  then show ?case by (simp add: best_inv_step)
qed

lemma findBestMatch_Some:
  assumes "findBestMatch f ex = Some b"
  shows "0.15 < ev_confidence b \<and> ev_confidence b = matchScore f (bm_fieldType b)
    \<and> (\<exists>d. (bm_fieldType b, d) \<in> set ex \<and> ev_value b = ev_value d)
    \<and> (\<forall>e\<in>set ex. matchScore f (fst e) \<le> ev_confidence b)"
proof -
  have "best_inv f ex (foldl (best_step f) (0, None) ex)" by (rule best_inv_foldl)
  with assms show ?thesis
    unfolding findBestMatch_def best_inv_def by (fastforce split: option.splits)
qed

lemma findBestMatch_None_iff:
  "findBestMatch f ex = None \<longleftrightarrow> (\<forall>e\<in>set ex. matchScore f (fst e) \<le> 0.15)"
proof
  assume n: "findBestMatch f ex = None"
  have "best_inv f ex (foldl (best_step f) (0, None) ex)" by (rule best_inv_foldl)
  with n show "\<forall>e\<in>set ex. matchScore f (fst e) \<le> 0.15"
    unfolding findBestMatch_def best_inv_def by (auto split: option.splits)
next
  assume low: "\<forall>e\<in>set ex. matchScore f (fst e) \<le> 0.15"
  show "findBestMatch f ex = None"
  proof (cases "findBestMatch f ex")
    case None
    then show ?thesis .
  next
    case (Some b)
    then obtain d where "(bm_fieldType b, d) \<in> set ex"
        and "0.15 < matchScore f (bm_fieldType b)"
      using findBestMatch_Some [of f ex b] by auto
    with low show ?thesis by force
  qed
qed

lemma mapping_foldl:
  "foldl (mapping_step ex) acc fs =
     acc @ concat (map (\<lambda>f. case findBestMatch f ex of None \<Rightarrow> []
        | Some b \<Rightarrow> [\<lparr>mp_fieldId = f_id f, mp_fieldName = f_name f,
                        mp_fieldType = f_type f, mp_mappedValue = ev_value b,
                        mp_confidence = ev_confidence b,
                        mp_extractedFrom = bm_fieldType b\<rparr>]) fs)"
  by (induction fs arbitrary: acc) (auto simp add: mapping_step_def split: option.splits)

lemma generateFieldMappings_ids:
  "map mp_fieldId (generateFieldMappings fs ex) =
     map f_id (filter (\<lambda>f. findBestMatch f ex \<noteq> None) fs)"
  unfolding generateFieldMappings_def mapping_foldl
  by (induction fs) (auto split: option.splits)

lemma generateFieldMappings_mem:
  assumes "m \<in> set (generateFieldMappings fs ex)"
  shows "\<exists>f\<in>set fs. \<exists>b. findBestMatch f ex = Some b \<and> mp_fieldId m = f_id f
     \<and> mp_mappedValue m = ev_value b \<and> mp_confidence m = ev_confidence b
     \<and> mp_extractedFrom m = bm_fieldType b"
proof -
  from assms obtain f where f: "f \<in> set fs"
    and m: "m \<in> set (case findBestMatch f ex of None \<Rightarrow> []
        | Some b \<Rightarrow> [\<lparr>mp_fieldId = f_id f, mp_fieldName = f_name f,
                        mp_fieldType = f_type f, mp_mappedValue = ev_value b,
                        mp_confidence = ev_confidence b,
                        mp_extractedFrom = bm_fieldType b\<rparr>])"
    unfolding generateFieldMappings_def mapping_foldl by auto
  show ?thesis
  proof (cases "findBestMatch f ex")
    case None
    with m show ?thesis by simp
  next
    case (Some b)
    with m f show ?thesis by (intro bexI [of _ f] exI [of _ b]) simp_all
  qed
qed

lemma date_slot_scores: "\<forall>e\<in>set scenario_extracted. matchScore date_slot (fst e) \<le> 0.15"
  by code_simp

lemma email_slot_score: "matchScore email_slot ''email'' = 1.3"
  by code_simp

lemma email_slot_best:
  "findBestMatch email_slot scenario_extracted =
     Some \<lparr>ev_value = ''jane@hosp.org'', ev_confidence = 1.3,
           ev_pattern = toString (email_patterns ! 0), ev_method = ''regex'',
           bm_fieldType = ''email''\<rparr>"
  by code_simp

text \<open>
  C3: \<^verbatim>\<open>findBestMatch\<close> returns a match exactly when some extracted entity type
  scores above the threshold 0.15, and then the match returned is such an entity type.
  A field for which no entity type clears the threshold has no entry in the list that
  \<^verbatim>\<open>generateFieldMappings\<close> returns; both functions are total, so this is an
  ordinary result.
\<close>

theorem no_match_below_threshold:
  "(findBestMatch f ex = None \<longleftrightarrow> (\<forall>e\<in>set ex. matchScore f (fst e) \<le> 0.15))
   \<and> (\<forall>b. findBestMatch f ex = Some b \<longrightarrow>
         0.15 < matchScore f (bm_fieldType b) \<and> bm_fieldType b \<in> fst ` set ex)
   \<and> map mp_fieldId (generateFieldMappings fs ex) =
       map f_id (filter (\<lambda>f. \<exists>e\<in>set ex. 0.15 < matchScore f (fst e)) fs)"
proof (intro conjI allI impI)
  show "findBestMatch f ex = None \<longleftrightarrow> (\<forall>e\<in>set ex. matchScore f (fst e) \<le> 0.15)"
    by (rule findBestMatch_None_iff)
next
  fix b
  assume "findBestMatch f ex = Some b"
  then have "0.15 < ev_confidence b \<and> ev_confidence b = matchScore f (bm_fieldType b)
      \<and> (\<exists>d. (bm_fieldType b, d) \<in> set ex \<and> ev_value b = ev_value d)"
    using findBestMatch_Some [of f ex b] by simp
  then show "0.15 < matchScore f (bm_fieldType b)" and "bm_fieldType b \<in> fst ` set ex"
    by force+
next
  have "(findBestMatch g ex \<noteq> None) = (\<exists>e\<in>set ex. 0.15 < matchScore g (fst e))" for g
    by (auto simp add: findBestMatch_None_iff not_le)
  then show "map mp_fieldId (generateFieldMappings fs ex) =
      map f_id (filter (\<lambda>f. \<exists>e\<in>set ex. 0.15 < matchScore f (fst e)) fs)"
    by (simp add: generateFieldMappings_ids)
qed

theorem no_match_below_threshold_witness:
  "findBestMatch date_slot scenario_extracted = None
   \<and> map mp_fieldId (generateFieldMappings [date_slot, email_slot] scenario_extracted) =
       [''contact_email'']"
proof -
  have "\<exists>e\<in>set scenario_extracted. 0.15 < matchScore email_slot (fst e)"
    using email_slot_score by (simp add: scenario_extracted_def)
  moreover have "\<not> (\<exists>e\<in>set scenario_extracted. 0.15 < matchScore date_slot (fst e))"
    using date_slot_scores by (simp add: not_less)
  ultimately show ?thesis
    using no_match_below_threshold [of date_slot scenario_extracted "[date_slot, email_slot]"]
      date_slot_scores
    by (simp add: email_slot_def)
qed

text \<open>
  C10: the confidence of the match that \<^verbatim>\<open>findBestMatch\<close> returns, and of the
  assignment made from it, is the match score of the field and the entity type; the
  confidence computed at extraction is not kept. The value of the assignment is the value
  of the extracted entry of that entity type, unchanged.
\<close>

theorem assignment_confidence_is_match_score:
  "(\<forall>b. findBestMatch f ex = Some b \<longrightarrow>
        ev_confidence b = matchScore f (bm_fieldType b)
        \<and> (\<exists>d. (bm_fieldType b, d) \<in> set ex \<and> ev_value b = ev_value d))
   \<and> (\<forall>m\<in>set (generateFieldMappings fs ex). \<exists>g\<in>set fs. \<exists>d.
        mp_fieldId m = f_id g
        \<and> mp_confidence m = matchScore g (mp_extractedFrom m)
        \<and> (mp_extractedFrom m, d) \<in> set ex \<and> mp_mappedValue m = ev_value d)"
proof (intro conjI allI impI ballI)
  fix b
  assume "findBestMatch f ex = Some b"
  then show "ev_confidence b = matchScore f (bm_fieldType b)"
    and "\<exists>d. (bm_fieldType b, d) \<in> set ex \<and> ev_value b = ev_value d"
    using findBestMatch_Some [of f ex b] by simp_all
next
  fix m
  assume "m \<in> set (generateFieldMappings fs ex)"
  then obtain g b where g: "g \<in> set fs" and b: "findBestMatch g ex = Some b"
    and m: "mp_fieldId m = f_id g" "mp_mappedValue m = ev_value b"
      "mp_confidence m = ev_confidence b" "mp_extractedFrom m = bm_fieldType b"
    using generateFieldMappings_mem [of m fs ex] by blast
  from b obtain d where "ev_confidence b = matchScore g (bm_fieldType b)"
      "(bm_fieldType b, d) \<in> set ex" "ev_value b = ev_value d"
    using findBestMatch_Some [of g ex b] by blast
  with g m show "\<exists>g\<in>set fs. \<exists>d. mp_fieldId m = f_id g
      \<and> mp_confidence m = matchScore g (mp_extractedFrom m)
      \<and> (mp_extractedFrom m, d) \<in> set ex \<and> mp_mappedValue m = ev_value d"
    by (intro bexI [of _ g] exI [of _ d]) simp_all
qed

theorem assignment_confidence_is_match_score_witness:
  "map_option ev_confidence (findBestMatch email_slot scenario_extracted) = Some 1.3
   \<and> matchScore email_slot ''email'' = 1.3
   \<and> map_option ev_confidence (map_of scenario_extracted ''email'') = Some 0.75
   \<and> map_option ev_value (findBestMatch email_slot scenario_extracted) = Some ''jane@hosp.org''
   \<and> map_option ev_value (map_of scenario_extracted ''email'') = Some ''jane@hosp.org''"
  using assignment_confidence_is_match_score [of email_slot scenario_extracted "[]"]
    email_slot_best email_slot_score
  by (simp add: scenario_extracted_def)

section \<open>LearningSystem\<close>

lemma only_prefixes: "cp \<in> set (extractCommonPatterns vals) \<Longrightarrow> cp_type cp = ''prefix''"
  by (auto simp add: extractCommonPatterns_def prefix_patterns_def Let_def split: if_splits)

lemma entries_set: "set (entries obj) = set obj"
  by (auto simp add: entries_def)

lemma bump_lookup:
  "map_of (bump cs k) j =
     (if j = k then Some ((case map_of cs k of None \<Rightarrow> 0 | Some n \<Rightarrow> n) + 1) else map_of cs j)"
  by (simp add: bump_def update_conv')

lemma bump_distinct: "distinct (map fst cs) \<Longrightarrow> distinct (map fst (bump cs k))"
  by (simp add: bump_def distinct_update)

lemma prefix_count_snoc:
  "prefix_count (vals @ [v]) p =
     prefix_count vals p + (case v of Str s \<Rightarrow> if length s > 3 \<and> take 3 s = p then 1 else 0
                              | NotString \<Rightarrow> 0)"
  by (simp add: prefix_count_def split: js_value.splits)

lemma count_step_ok:
  assumes "counts_ok vals (fst acc)"
  shows "counts_ok (vals @ [v]) (fst (count_step acc v))"
proof (cases v)
  case NotString
  with assms show ?thesis by (simp add: count_step_def counts_ok_def prefix_count_snoc)
next
  case (Str s)
  show ?thesis
  proof (cases "length s > 3")
    case False
    with Str assms show ?thesis by (simp add: count_step_def counts_ok_def prefix_count_snoc)
  next
    case True
    with Str have st: "fst (count_step acc v) = bump (fst acc) (take 3 s)"
      by (simp add: count_step_def)
    from assms have d: "distinct (map fst (fst acc))"
      and m: "\<And>p. map_of (fst acc) p =
        (if prefix_count vals p = 0 then None else Some (prefix_count vals p))"
      by (simp_all add: counts_ok_def)
    have "map_of (bump (fst acc) (take 3 s)) p =
        (if prefix_count (vals @ [v]) p = 0 then None else Some (prefix_count (vals @ [v]) p))" for p
      using True Str by (simp add: bump_lookup m prefix_count_snoc)
    with d show ?thesis unfolding st counts_ok_def by (simp add: bump_distinct)
  qed
qed

lemma count_fold_ok: "counts_ok vals (fst (foldl count_step ([], []) vals))"
proof (induction vals rule: rev_induct)
  case Nil
  show ?case by (simp add: counts_ok_def prefix_count_def)
next
  case (snoc v vals)
  then show ?case by (simp add: count_step_ok)
qed

text \<open>
  What \<^verbatim>\<open>extractCommonPatterns\<close> returns, for every list of values: one entry for
  each 3-character prefix shared by at least two of the strings longer than 3 characters,
  with its frequency, and nothing else; no entry is ever made for a suffix.
\<close>

lemma extractCommonPatterns_set:
  "set (extractCommonPatterns vals) =
     {\<lparr>cp_type = ''prefix'', cp_pattern = p, cp_frequency = prefix_count vals p\<rparr> | p.
        2 \<le> prefix_count vals p}"
proof -
  let ?cs = "fst (foldl count_step ([], []) vals)"
  have ok: "counts_ok vals ?cs" by (rule count_fold_ok)
  then have d: "distinct (map fst ?cs)" by (simp add: counts_ok_def)
  have mem: "(p, n) \<in> set ?cs \<longleftrightarrow> n = prefix_count vals p \<and> n \<noteq> 0" for p n
  proof -
    from d have "(p, n) \<in> set ?cs \<longleftrightarrow> map_of ?cs p = Some n" by simp
    with ok show ?thesis by (auto simp add: counts_ok_def)
  qed
  have "set (extractCommonPatterns vals) =
      {\<lparr>cp_type = ''prefix'', cp_pattern = fst e, cp_frequency = snd e\<rparr> | e.
         e \<in> set ?cs \<and> 2 \<le> snd e}"
    by (auto simp add: extractCommonPatterns_def prefix_patterns_def Let_def entries_set
        split: if_splits)
  also have "\<dots> = {\<lparr>cp_type = ''prefix'', cp_pattern = p, cp_frequency = prefix_count vals p\<rparr> | p.
        2 \<le> prefix_count vals p}"
  proof (intro set_eqI iffI)
    fix x
    assume "x \<in> {\<lparr>cp_type = ''prefix'', cp_pattern = fst e, cp_frequency = snd e\<rparr> | e.
         e \<in> set ?cs \<and> 2 \<le> snd e}"
    then obtain p n where "(p, n) \<in> set ?cs" "2 \<le> n"
        "x = \<lparr>cp_type = ''prefix'', cp_pattern = p, cp_frequency = n\<rparr>" by auto
    with mem [of p n] show "x \<in> {\<lparr>cp_type = ''prefix'', cp_pattern = p,
        cp_frequency = prefix_count vals p\<rparr> | p. 2 \<le> prefix_count vals p}" by auto
  next
    fix x
    assume "x \<in> {\<lparr>cp_type = ''prefix'', cp_pattern = p,
        cp_frequency = prefix_count vals p\<rparr> | p. 2 \<le> prefix_count vals p}"
    then obtain p where p: "2 \<le> prefix_count vals p"
        "x = \<lparr>cp_type = ''prefix'', cp_pattern = p, cp_frequency = prefix_count vals p\<rparr>"
      by auto
    then have "(p, prefix_count vals p) \<in> set ?cs" using mem [of p "prefix_count vals p"] by simp
    with p show "x \<in> {\<lparr>cp_type = ''prefix'', cp_pattern = fst e, cp_frequency = snd e\<rparr> | e.
         e \<in> set ?cs \<and> 2 \<le> snd e}" by force
  qed
  finally show ?thesis .
qed

text \<open>
  C7 does not hold of the code. Three accepted values that share the suffix
  \<^verbatim>\<open>xyz\<close> and no prefix: the loop counts the suffix three times, and the list of
  common patterns is empty, also as \<^verbatim>\<open>updateSuccessPatterns\<close> stores it with the
  third value.
\<close>

theorem common_suffix_dropped:
  "snd (foldl count_step ([], []) accepted3) = [(''xyz'', 3)]
   \<and> extractCommonPatterns accepted3 = []
   \<and> map_option commonPatterns (map_of (updateSuccessPatterns
          [(''site'', \<lparr>successfulValues = [Str ''abcxyz'', Str ''defxyz''],
                        commonPatterns = []\<rparr>)]
          ''site'' (Str ''ghixyz'')) ''site'') = Some []"
  by (simp add: accepted3_def extractCommonPatterns_def count_step_def bump_def
        prefix_patterns_def entries_def array_index_def is_digit_def in_range_def
        updateSuccessPatterns_def)

section \<open>White space matches no pattern of the library\<close>

lemma is_space_iff: "is_space c \<longleftrightarrow> c \<in> set space_chars"
  by (simp add: is_space_def space_chars_def)

lemma space_case:
  assumes "is_space x"
  shows "toUpperChar x = x \<and> toLowerChar x = x"
proof -
  from assms have "x = CHR 0x09 \<or> x = CHR 0x0A \<or> x = CHR 0x0B \<or> x = CHR 0x0C \<or> x = CHR 0x0D
      \<or> x = CHR 0x20 \<or> x = CHR 0xA0"
    by (simp add: is_space_def)
  then show ?thesis
    by (elim disjE) (simp_all add: toUpperChar_def toLowerChar_def upper_chars_def lower_chars_def)
qed

lemma space_not_digit: "is_space x \<Longrightarrow> \<not> is_digit x"
  by (auto simp add: is_space_def is_digit_def in_range_def)

lemma item_has_no_space:
  assumes "item_needs_ink i" and "is_space x"
  shows "\<not> citem_has i x"
proof (cases i)
  case (CChr c)
  with assms show ?thesis by auto
next
  case (CEsc c)
  with assms show ?thesis by auto
next
  case CNl
  with assms show ?thesis by simp
next
  case (CRange a b)
  with assms have "list_all (\<lambda>s. \<not> in_range a b s) space_chars" by simp
  moreover from assms have "x \<in> set space_chars" by (simp add: is_space_iff)
  ultimately have "\<not> in_range a b x" by (auto simp add: list_all_iff)
  with CRange show ?thesis by simp
next
  case CSpace
  with assms show ?thesis by simp
next
  case CDigit
  with assms show ?thesis by (simp add: space_not_digit)
qed

lemma item_no_space: "item_needs_ink i \<Longrightarrow> is_space x \<Longrightarrow> \<not> citem_matches ic i x"
  by (simp add: citem_matches_def case_variants_def space_case item_has_no_space)

lemma cls_no_space:
  "list_all item_needs_ink items \<Longrightarrow> is_space x \<Longrightarrow> \<not> cls_matches ic False items x"
  by (auto simp add: cls_matches_def list_ex_iff list_all_iff item_no_space)

lemma chr_no_space:
  "\<not> is_space c \<Longrightarrow> \<not> is_space (toUpperChar c) \<Longrightarrow> is_space x \<Longrightarrow> \<not> chr_matches ic c x"
  by (auto simp add: chr_matches_def space_case)

lemma step1_blank:
  "\<forall>c\<in>set (rest st). is_space c \<Longrightarrow> (\<And>x. is_space x \<Longrightarrow> \<not> P x) \<Longrightarrow> step1 P st = []"
  by (cases "rest st") (auto simp add: step1_def)

lemma step1_rest: "st' \<in> set (step1 P st) \<Longrightarrow> suffix (rest st') (rest st)"
  by (cases "rest st") (auto simp add: step1_def rest_def suffix_Cons split: if_splits)

lemma rx_m_star_cases:
  assumes "st' \<in> set (rx_m ic (Rep 0 hi r) st)" and "hi \<noteq> Some 0"
  shows "st' = st \<or> (\<exists>st1. st1 \<in> set (rx_m ic r st) \<and> length (rest st1) < length (rest st)
            \<and> st' \<in> set (rx_m ic (Rep 0 (dec hi) r) st1))"
proof -
  from assms have "st' \<in> set (concat (map (\<lambda>st1. if length (rest st1) < length (rest st)
        then rx_m ic (Rep 0 (dec hi) r) st1 else []) (rx_m ic r st)) @ [st])"
    by (subst (asm) rx_m.simps(16)) (simp only: if_False)
  then show ?thesis
    by (auto simp del: rx_m.simps split: if_splits)
qed

lemma rx_m_star_zero: "rx_m ic (Rep 0 (Some 0) r) st = [st]"
  by (subst rx_m.simps(16)) (simp del: rx_m.simps)

lemma rx_m_rest: "st' \<in> set (rx_m ic r st) \<Longrightarrow> suffix (rest st') (rest st)"
proof (induction ic r st arbitrary: st' rule: rx_m.induct)
  case (1 ic st)
  then show ?case by simp
next
  case (2 ic c st)
  then show ?case by (simp add: step1_rest)
next
  case (3 ic c st)
  then show ?case by (simp add: step1_rest)
next
  case (4 ic st)
  then show ?case by (simp add: step1_rest)
next
  case (5 ic st)
  then show ?case by (simp add: step1_rest)
next
  case (6 ic st)
  then show ?case by (simp add: step1_rest)
next
  case (7 ic st)
  then show ?case by (simp split: if_splits)
next
  case (8 ic st)
  then show ?case by (simp split: if_splits)
next
  case (9 ic st)
  then show ?case by (simp split: if_splits)
next
  case (10 ic neg items st)
  then show ?case by (simp add: step1_rest)
next
  case (11 ic a b st)
  from "11.prems" obtain st1 where s1: "st1 \<in> set (rx_m ic a st)"
      and s2: "st' \<in> set (rx_m ic b st1)" by auto
  from s1 have "suffix (rest st1) (rest st)" by (rule "11.IH"(1))
  moreover from s1 s2 have "suffix (rest st') (rest st1)" by (rule "11.IH"(2))
  ultimately show ?case by (meson suffix_order.trans)
next
  case (12 ic a b st)
  from "12.prems" have "st' \<in> set (rx_m ic a st) \<or> st' \<in> set (rx_m ic b st)" by simp
  then show ?case using "12.IH" by blast
next
  case (13 ic r st)
  then show ?case by simp
next
  case (14 ic n r st)
  from "14.prems" obtain st1 where s1: "st1 \<in> set (rx_m ic r st)"
      and eq: "rest st' = rest st1" by (auto simp add: rest_def)
  from s1 have "suffix (rest st1) (rest st)" by (rule "14.IH")
  with eq show ?case by simp
next
  case (15 ic lo hi r st)
  show ?case
  proof (cases "hi = Some 0")
    case True
    with "15.prems" show ?thesis by simp
  next
    case False
    with "15.prems" obtain st1 where s1: "st1 \<in> set (rx_m ic r st)"
        and s2: "st' \<in> set (rx_m ic (Rep lo (dec hi) r) st1)" by auto
    from False s1 have "suffix (rest st1) (rest st)" by (rule "15.IH"(1))
    moreover from False s1 s2 have "suffix (rest st') (rest st1)" by (rule "15.IH"(2))
    ultimately show ?thesis by (meson suffix_order.trans)
  qed
next
  case (16 ic hi r st)
  show ?case
  proof (cases "hi = Some 0")
    case True
    with "16.prems" show ?thesis by (simp only: rx_m_star_zero) simp
  next
    case False
    with "16.prems" consider "st' = st"
      | st1 where "st1 \<in> set (rx_m ic r st)" "length (rest st1) < length (rest st)"
          "st' \<in> set (rx_m ic (Rep 0 (dec hi) r) st1)"
      using rx_m_star_cases by blast
    then show ?thesis
    proof cases
      case 1
      then show ?thesis by simp
    next
      case 2
      from False 2(1) have "suffix (rest st1) (rest st)" by (rule "16.IH"(1))
      moreover from False 2 have "suffix (rest st') (rest st1)" by (rule "16.IH"(2))
      ultimately show ?thesis by (meson suffix_order.trans)
    qed
  qed
qed

lemma rx_m_blank:
  "needs_ink r \<Longrightarrow> \<forall>c\<in>set (rest st). is_space c \<Longrightarrow> rx_m ic r st = []"
proof (induction ic r st rule: rx_m.induct)
  case (11 ic a b st)
  show ?case
  proof (cases "needs_ink a")
    case True with 11 show ?thesis by simp
  next
    case False
    with 11 have nb: "needs_ink b" by simp
    have "rx_m ic b st1 = []" if "st1 \<in> set (rx_m ic a st)" for st1
    proof -
      from that have "suffix (rest st1) (rest st)" by (rule rx_m_rest)
      then have "set (rest st1) \<subseteq> set (rest st)" by (rule set_mono_suffix)
      with 11 that nb show ?thesis by blast
    qed
    then show ?thesis by simp
  qed
next
  case (15 ic lo hi r st)
  then show ?case by simp
qed (auto intro!: step1_blank simp add: space_not_digit cls_no_space chr_no_space)

lemma exec_from_blank:
  "needs_ink r \<Longrightarrow> \<forall>c\<in>set s. is_space c \<Longrightarrow> exec_from ic r b s = None"
proof (induction s arbitrary: b)
  case Nil
  then have "rx_m ic r (b, [], []) = []" by (intro rx_m_blank) (simp_all add: rest_def)
  then show ?case by simp
next
  case (Cons x xs)
  then have "rx_m ic r (b, x # xs, []) = []" by (intro rx_m_blank) (simp_all add: rest_def)
  with Cons show ?case by simp
qed

lemma library_needs_ink:
  "list_all (\<lambda>p. needs_ink (node p)) (concat (map snd fieldPatterns))"
  by code_simp

lemma first_match_blank:
  assumes "\<forall>c\<in>set text. is_space c" and "list_all (\<lambda>p. needs_ink (node p)) ps"
  shows "first_match ps text = None"
  using assms(2)
proof (induction ps)
  case Nil
  show ?case by simp
next
  case (Cons p ps)
  then have "needs_ink (node p)" by simp
  with assms(1) have "str_match text p = None"
    by (simp add: str_match_def exec_from_blank)
  with Cons show ?case by simp
qed

lemma regex_fold_blank:
  assumes "\<forall>c\<in>set text. is_space c"
    and "list_all (\<lambda>p. needs_ink (node p)) (concat (map snd es))"
  shows "foldl (regex_step text) ex es = ex"
  using assms(2)
proof (induction es arbitrary: ex)
  case Nil
  show ?case by simp
next
  case (Cons e es)
  then have "list_all (\<lambda>p. needs_ink (node p)) (snd e)" by simp
  with assms(1) have "first_match (snd e) text = None" by (rule first_match_blank)
  then have "regex_step text ex e = ex" by (simp add: regex_step_def)
  with Cons show ?case by simp
qed

lemma regex_pass_blank: "\<forall>c\<in>set text. is_space c \<Longrightarrow> regex_pass text = []"
  unfolding regex_pass_def by (rule regex_fold_blank) (simp_all add: library_needs_ink)

lemma split_not_Nil: "split c s \<noteq> []"
  by (induction s) (auto split: list.splits)

lemma split_chars: "l \<in> set (split c s) \<Longrightarrow> set l \<subseteq> set s"
proof (induction s arbitrary: l)
  case Nil
  then show ?case by simp
next
  case (Cons x xs)
  show ?case
  proof (cases "x = c")
    case True
    with Cons show ?thesis by auto
  next
    case False
    obtain l0 ls where sp: "split c xs = l0 # ls"
      using split_not_Nil [of c xs] by (cases "split c xs") auto
    with False Cons.prems have l: "l = x # l0 \<or> l \<in> set ls" by auto
    from sp have "l0 \<in> set (split c xs)" and "\<And>k. k \<in> set ls \<Longrightarrow> k \<in> set (split c xs)"
      by simp_all
    with Cons.IH l show ?thesis by fastforce
  qed
qed

lemma trim_blank: "\<forall>c\<in>set l. is_space c \<Longrightarrow> trim l = []"
  by (auto simp add: trim_def dest: set_dropWhileD)

lemma text_lines_blank: "\<forall>c\<in>set text. is_space c \<Longrightarrow> text_lines text = []"
proof -
  assume blank: "\<forall>c\<in>set text. is_space c"
  have "trim l = []" if "l \<in> set (split newline text)" for l
  proof -
    from that have "set l \<subseteq> set text" by (rule split_chars)
    with blank have "\<forall>c\<in>set l. is_space c" by blast
    then show ?thesis by (rule trim_blank)
  qed
  then show ?thesis
    by (simp add: text_lines_def filter_empty_conv)
qed

text \<open>
  C9: for a text that is empty or consists of white space only, neither pass extracts
  anything and \<^verbatim>\<open>extractStructuredData\<close> returns the empty object.
\<close>

theorem blank_text_extracts_nothing:
  "(\<forall>c\<in>set text. is_space c) \<longrightarrow>
     regex_pass text = [] \<and> text_lines text = [] \<and> extractStructuredData text = []"
proof
  assume blank: "\<forall>c\<in>set text. is_space c"
  then have "regex_pass text = []" and "text_lines text = []"
    by (rule regex_pass_blank, rule text_lines_blank)
  then show "regex_pass text = [] \<and> text_lines text = [] \<and> extractStructuredData text = []"
    by (simp add: extractStructuredData_def extractFlexiblePatterns_def)
qed

theorem blank_text_extracts_nothing_witness:
  "extractStructuredData [] = []
   \<and> extractStructuredData ([CHR '' '', CHR 0x09, newline, CHR 0x0D, newline, CHR 0xA0, CHR '' '']) = []"
  using blank_text_extracts_nothing [of "[]"]
    blank_text_extracts_nothing [of "[CHR '' '', CHR 0x09, newline, CHR 0x0D, newline, CHR 0xA0, CHR '' '']"]
  by (simp add: is_space_def newline_def)

section \<open>Capture groups are defined\<close>

lemma step1_captured: "st' \<in> set (step1 P st) \<Longrightarrow> captured n st' = captured n st"
  by (cases "rest st") (auto simp add: step1_def captured_def captures_def split: if_splits)

lemma rx_m_keeps: "st' \<in> set (rx_m ic r st) \<Longrightarrow> captured n st \<Longrightarrow> captured n st'"
proof (induction ic r st arbitrary: st' rule: rx_m.induct)
  case (1 ic st)
  then show ?case by simp
next
  case (2 ic c st)
  then show ?case by (simp add: step1_captured)
next
  case (3 ic c st)
  then show ?case by (simp add: step1_captured)
next
  case (4 ic st)
  then show ?case by (simp add: step1_captured)
next
  case (5 ic st)
  then show ?case by (simp add: step1_captured)
next
  case (6 ic st)
  then show ?case by (simp add: step1_captured)
next
  case (7 ic st)
  then show ?case by (simp split: if_splits)
next
  case (8 ic st)
  then show ?case by (simp split: if_splits)
next
  case (9 ic st)
  then show ?case by (simp split: if_splits)
next
  case (10 ic neg items st)
  then show ?case by (simp add: step1_captured)
next
  case (11 ic a b st)
  from "11.prems"(1) obtain st1 where s1: "st1 \<in> set (rx_m ic a st)"
      and s2: "st' \<in> set (rx_m ic b st1)" by auto
  from s1 "11.prems"(2) have "captured n st1" by (rule "11.IH"(1))
  with s1 s2 show ?case by (rule "11.IH"(2))
next
  case (12 ic a b st)
  from "12.prems"(1) have "st' \<in> set (rx_m ic a st) \<or> st' \<in> set (rx_m ic b st)" by simp
  with "12.prems"(2) show ?case using "12.IH" by blast
next
  case (13 ic r st)
  then show ?case by simp
next
  case (14 ic k r st)
  from "14.prems"(1) obtain st1 where s1: "st1 \<in> set (rx_m ic r st)"
      and eq: "captures st' = AList.update k (consumed st st1) (captures st1)"
    by (auto simp add: captures_def)
  from s1 "14.prems"(2) have "captured n st1" by (rule "14.IH")
  with eq show ?case by (simp add: captured_def update_conv')
next
  case (15 ic lo hi r st)
  show ?case
  proof (cases "hi = Some 0")
    case True
    with "15.prems" show ?thesis by simp
  next
    case False
    with "15.prems"(1) obtain st1 where s1: "st1 \<in> set (rx_m ic r st)"
        and s2: "st' \<in> set (rx_m ic (Rep lo (dec hi) r) st1)" by auto
    from False s1 "15.prems"(2) have "captured n st1" by (rule "15.IH"(1))
    with False s1 s2 show ?thesis by (rule "15.IH"(2))
  qed
next
  case (16 ic hi r st)
  show ?case
  proof (cases "hi = Some 0")
    case True
    with "16.prems" show ?thesis by (simp only: rx_m_star_zero) simp
  next
    case False
    with "16.prems"(1) consider "st' = st"
      | st1 where "st1 \<in> set (rx_m ic r st)" "length (rest st1) < length (rest st)"
          "st' \<in> set (rx_m ic (Rep 0 (dec hi) r) st1)"
      using rx_m_star_cases by blast
    then show ?thesis
    proof cases
      case 1
      with "16.prems"(2) show ?thesis by simp
    next
      case 2
      from False 2(1) "16.prems"(2) have "captured n st1" by (rule "16.IH"(1))
      with False 2 show ?thesis by (rule "16.IH"(2))
    qed
  qed
qed

lemma rx_m_sets: "st' \<in> set (rx_m ic r st) \<Longrightarrow> sets_group n r \<Longrightarrow> captured n st'"
proof (induction r arbitrary: st st')
  case (Seq a b)
  from Seq.prems(1) obtain st1 where s1: "st1 \<in> set (rx_m ic a st)"
      and s2: "st' \<in> set (rx_m ic b st1)" by auto
  show ?case
  proof (cases "sets_group n a")
    case True
    with s1 have "captured n st1" by (rule Seq.IH(1))
    with s2 show ?thesis by (rule rx_m_keeps)
  next
    case False
    with Seq.prems(2) have "sets_group n b" by simp
    with s2 show ?thesis by (rule Seq.IH(2))
  qed
next
  case (Alt a b)
  from Alt.prems(2) have sa: "sets_group n a" and sb: "sets_group n b" by simp_all
  from Alt.prems(1) consider "st' \<in> set (rx_m ic a st)" | "st' \<in> set (rx_m ic b st)"
    by auto
  then show ?case
  proof cases
    case 1
    then show ?thesis using sa by (rule Alt.IH(1))
  next
    case 2
    then show ?thesis using sb by (rule Alt.IH(2))
  qed
next
  case (Rep lo hi r)
  then obtain l where lo: "lo = Suc l" and hi: "hi \<noteq> Some 0" and sr: "sets_group n r"
    by (cases lo) auto
  with Rep.prems(1) obtain st1 where s1: "st1 \<in> set (rx_m ic r st)"
      and s2: "st' \<in> set (rx_m ic (Rep l (dec hi) r) st1)" by auto
  from s1 sr have "captured n st1" by (rule Rep.IH)
  with s2 show ?case by (rule rx_m_keeps)
next
  case (Grp k r)
  from Grp.prems(1) obtain st1 where s1: "st1 \<in> set (rx_m ic r st)"
      and eq: "captures st' = AList.update k (consumed st st1) (captures st1)"
    by (auto simp add: captures_def)
  show ?case
  proof (cases "k = n")
    case True
    with eq show ?thesis by (simp add: captured_def update_conv')
  next
    case False
    with Grp.prems(2) have "sets_group n r" by simp
    with s1 have "captured n st1" by (rule Grp.IH)
    with eq show ?thesis by (simp add: captured_def update_conv')
  qed
next
  case (NGrp r)
  then show ?case by simp
qed simp_all

lemma exec_from_group:
  "exec_from ic r b s = Some m \<Longrightarrow> sets_group n r \<Longrightarrow> group m n \<noteq> None"
proof (induction s arbitrary: b)
  case Nil
  then obtain st sts where "rx_m ic r (b, [], []) = st # sts" and "m_groups m = captures st"
    by (auto split: list.splits)
  then have "st \<in> set (rx_m ic r (b, [], []))" by simp
  with Nil.prems(2) have "captured n st" by (rule rx_m_sets [rotated])
  with \<open>m_groups m = captures st\<close> show ?case by (simp add: group_def captured_def)
next
  case (Cons x xs)
  show ?case
  proof (cases "rx_m ic r (b, x # xs, [])")
    case Nil
    with Cons show ?thesis by simp
  next
    case (Cons st sts)
    with Cons.prems(1) have mg: "m_groups m = captures st" by auto
    from Cons have "st \<in> set (rx_m ic r (b, x # xs, []))" by simp
    with Cons.prems(2) have "captured n st" by (rule rx_m_sets [rotated])
    with mg show ?thesis by (simp add: group_def captured_def)
  qed
qed

lemma library_groups:
  "list_all (\<lambda>p. sets_group 1 (node p)) (concat (map snd fieldPatterns))"
  by code_simp

lemma flexible_groups:
  "sets_group 1 (node colon_regex) \<and> sets_group 2 (node colon_regex)
   \<and> sets_group 1 (node standalone_email_regex) \<and> sets_group 1 (node standalone_phone_regex)"
  by code_simp

text \<open>Each use of \<open>the_group\<close> in the extraction reads a group that took part in the match.\<close>

lemma groups_defined:
  "str_match line colon_regex = Some m \<Longrightarrow> group m 1 \<noteq> None \<and> group m 2 \<noteq> None"
  "str_match line standalone_email_regex = Some m \<Longrightarrow> group m 1 \<noteq> None"
  "str_match line standalone_phone_regex = Some m \<Longrightarrow> group m 1 \<noteq> None"
  using flexible_groups by (auto simp add: str_match_def dest: exec_from_group)

section \<open>Extraction\<close>

lemma update_absent: "map_of al k = None \<Longrightarrow> AList.update k v al = al @ [(k, v)]"
  by (induction al) (auto split: if_splits)

lemma extends_refl: "extends ex ex"
  by (simp add: extends_def)

lemma extends_trans: "extends a b \<Longrightarrow> extends b c \<Longrightarrow> extends a c"
  by (auto simp add: extends_def)

lemma extends_add: "\<not> has_key ex k \<Longrightarrow> extends ex (AList.update k v ex)"
proof -
  assume "\<not> has_key ex k"
  then have none: "map_of ex k = None" by (simp add: has_key_def)
  then have "k \<notin> fst ` set ex" by (simp add: map_of_eq_None_iff)
  with none show ?thesis by (simp add: update_absent extends_def)
qed

lemma colon_step_extends: "extends ex (colon_step ex line)"
  by (auto simp add: colon_step_def Let_def extends_refl extends_add split: option.splits)

lemma email_step_extends: "extends ex (email_step ex line)"
  by (auto simp add: email_step_def extends_refl extends_add split: option.splits)

lemma phone_step_extends: "extends ex (phone_step ex line)"
  by (auto simp add: phone_step_def extends_refl extends_add split: option.splits)

lemma flexible_line_extends: "extends ex (flexible_line ex line)"
  unfolding flexible_line_def
  by (meson colon_step_extends email_step_extends phone_step_extends extends_trans)

lemma flexible_extends: "extends ex (extractFlexiblePatterns text ex)"
proof -
  have "extends ex (foldl flexible_line ex ls)" for ls
  proof (induction ls arbitrary: ex)
    case Nil
    show ?case by (simp add: extends_refl)
  next
    case (Cons l ls)
    have "extends ex (flexible_line ex l)" by (rule flexible_line_extends)
    moreover have "extends (flexible_line ex l) (foldl flexible_line (flexible_line ex l) ls)"
      by (rule Cons.IH)
    ultimately show ?case by (simp add: extends_trans [of ex "flexible_line ex l"])
  qed
  then show ?thesis by (simp add: extractFlexiblePatterns_def)
qed

lemma regex_step_distinct:
  "distinct (map fst ex) \<Longrightarrow> distinct (map fst (regex_step text ex e))"
  by (auto simp add: regex_step_def distinct_update split: option.splits)

lemma regex_fold_distinct:
  "distinct (map fst ex) \<Longrightarrow> distinct (map fst (foldl (regex_step text) ex es))"
  by (induction es arbitrary: ex) (simp_all add: regex_step_distinct)

lemma regex_pass_distinct: "distinct (map fst (regex_pass text))"
  by (simp add: regex_pass_def regex_fold_distinct)

lemma extracted_distinct: "distinct (map fst (extractStructuredData text))"
  using flexible_extends [of "regex_pass text" "text"] regex_pass_distinct [of "text"]
  by (simp add: extractStructuredData_def extends_def)

lemma regex_step_lookup:
  "map_of (regex_step text ex e) k =
     (if k = fst e then (case first_match (snd e) text of
                          None \<Rightarrow> map_of ex k
                        | Some (p, m) \<Rightarrow> Some (regex_value p m))
      else map_of ex k)"
  by (auto simp add: regex_step_def update_conv' split: option.splits)

lemma regex_fold_lookup:
  "distinct (map fst es) \<Longrightarrow>
   map_of (foldl (regex_step text) ex es) k =
     (case map_of es k of
        None \<Rightarrow> map_of ex k
      | Some ps \<Rightarrow> (case first_match ps text of
                     None \<Rightarrow> map_of ex k
                   | Some (p, m) \<Rightarrow> Some (regex_value p m)))"
proof (induction es arbitrary: ex)
  case Nil
  show ?case by simp
next
  case (Cons e es)
  then have d: "distinct (map fst es)" and n: "fst e \<notin> fst ` set es" by auto
  from n have none: "map_of es (fst e) = None" by (simp add: map_of_eq_None_iff)
  show ?case
    by (simp add: Cons.IH [OF d] regex_step_lookup none split: option.splits)
qed

lemma first_match_Some:
  "first_match ps text = Some (p, m) \<Longrightarrow>
     \<exists>qs rs. ps = qs @ p # rs \<and> (\<forall>q\<in>set qs. str_match text q = None) \<and> str_match text p = Some m"
proof (induction ps)
  case Nil
  then show ?case by simp
next
  case (Cons a ps)
  show ?case
  proof (cases "str_match text a")
    case (Some m')
    with Cons.prems have "a = p" "m' = m" by simp_all
    with Some have "a # ps = [] @ p # ps \<and> (\<forall>q\<in>set []. str_match text q = None)
        \<and> str_match text p = Some m" by simp
    then show ?thesis by blast
  next
    case None
    with Cons obtain qs rs where "ps = qs @ p # rs" "\<forall>q\<in>set qs. str_match text q = None"
        "str_match text p = Some m" by auto
    with None have "a # ps = (a # qs) @ p # rs \<and> (\<forall>q\<in>set (a # qs). str_match text q = None)
        \<and> str_match text p = Some m" by simp
    then show ?thesis by blast
  qed
qed

lemma regex_pass_lookup:
  "map_of (regex_pass text) k =
     (case map_of fieldPatterns k of
        None \<Rightarrow> None
      | Some ps \<Rightarrow> map_option (\<lambda>(p, m). regex_value p m) (first_match ps text))"
  unfolding regex_pass_def
  by (simp add: regex_fold_lookup [OF fieldPatterns_keys_distinct] split: option.splits)

lemma prefix_map_of:
  "prefix xs ys \<Longrightarrow> map_of xs k = Some v \<Longrightarrow> map_of ys k = Some v"
  by (auto simp add: prefix_def map_add_Some_iff)

lemma two_lines_regex:
  "map (\<lambda>e. (fst e, ev_value (snd e), ev_method (snd e))) (regex_pass two_lines) =
     [(''taxId'', ''12'', ''regex'')]"
  by code_simp

lemma two_lines_all:
  "map (\<lambda>e. (fst e, ev_value (snd e), ev_method (snd e))) (extractStructuredData two_lines) =
     [(''taxId'', ''12'', ''regex''), (''fax'', ''soon'', ''flexible'')]"
  by code_simp

text \<open>
  C2: the object that \<^verbatim>\<open>extractStructuredData\<close> returns has at most one value per
  entity type (its keys are distinct). In the first pass the value of an entity type is
  made from the first of its patterns that matches the text: the patterns before it do
  not match, and the patterns after it are not consulted. The second pass keeps every
  entry of the first pass, value and position, and only appends entries under keys that
  are not yet present; this includes the entries for a stand-alone email and phone.
\<close>

theorem one_value_per_entity_type:
  "distinct (map fst (extractStructuredData text))
   \<and> (\<forall>e\<in>set fieldPatterns.
        map_of (regex_pass text) (fst e) =
          map_option (\<lambda>(p, m). regex_value p m) (first_match (snd e) text))
   \<and> (\<forall>ps p m. first_match ps text = Some (p, m) \<longrightarrow>
        (\<exists>qs rs. ps = qs @ p # rs \<and> (\<forall>q\<in>set qs. str_match text q = None)
           \<and> str_match text p = Some m))
   \<and> prefix (regex_pass text) (extractStructuredData text)
   \<and> (\<forall>k v. map_of (regex_pass text) k = Some v \<longrightarrow>
        map_of (extractStructuredData text) k = Some v)
   \<and> (\<forall>ex line. extends ex (colon_step ex line) \<and> extends ex (email_step ex line)
        \<and> extends ex (phone_step ex line))"
proof (intro conjI ballI allI impI)
  show "distinct (map fst (extractStructuredData text))" by (rule extracted_distinct)
next
  fix e
  assume e: "e \<in> set fieldPatterns"
  then have "map_of fieldPatterns (fst e) = Some (snd e)"
    using fieldPatterns_keys_distinct by (simp add: map_of_eq_Some_iff)
  then show "map_of (regex_pass text) (fst e) =
      map_option (\<lambda>(p, m). regex_value p m) (first_match (snd e) text)"
    by (simp add: regex_pass_lookup)
next
  fix ps p m
  assume "first_match ps text = Some (p, m)"
  then show "\<exists>qs rs. ps = qs @ p # rs \<and> (\<forall>q\<in>set qs. str_match text q = None)
           \<and> str_match text p = Some m"
    by (rule first_match_Some)
next
  show pre: "prefix (regex_pass text) (extractStructuredData text)"
    using flexible_extends [of "regex_pass text" "text"]
    by (simp add: extractStructuredData_def extends_def)
  fix k v
  assume "map_of (regex_pass text) k = Some v"
  with pre show "map_of (extractStructuredData text) k = Some v" by (rule prefix_map_of)
next
  fix ex line
  show "extends ex (colon_step ex line)" by (rule colon_step_extends)
  show "extends ex (email_step ex line)" by (rule email_step_extends)
  show "extends ex (phone_step ex line)" by (rule phone_step_extends)
qed

lemma two_lines_tax:
  "str_match two_lines (taxId_patterns ! 0) = None
   \<and> str_match two_lines (taxId_patterns ! 1) =
       Some \<lparr>m_whole = ''ein: 12'', m_groups = [(1, ''12'')]\<rparr>"
  by code_simp

theorem one_value_per_entity_type_witness:
  "map (\<lambda>e. (fst e, ev_value (snd e), ev_method (snd e))) (extractStructuredData two_lines) =
     [(''taxId'', ''12'', ''regex''), (''fax'', ''soon'', ''flexible'')]
   \<and> distinct (map fst (extractStructuredData two_lines))
   \<and> first_match taxId_patterns two_lines =
       Some (taxId_patterns ! 1, \<lparr>m_whole = ''ein: 12'', m_groups = [(1, ''12'')]\<rparr>)
   \<and> map_of (regex_pass two_lines) ''taxId'' =
       Some (regex_value (taxId_patterns ! 1) \<lparr>m_whole = ''ein: 12'', m_groups = [(1, ''12'')]\<rparr>)
   \<and> map_of (extractStructuredData two_lines) ''taxId'' =
       Some (regex_value (taxId_patterns ! 1) \<lparr>m_whole = ''ein: 12'', m_groups = [(1, ''12'')]\<rparr>)"
proof -
  have fm: "first_match taxId_patterns two_lines =
      Some (taxId_patterns ! 1, \<lparr>m_whole = ''ein: 12'', m_groups = [(1, ''12'')]\<rparr>)"
    using two_lines_tax by (simp add: taxId_patterns_def)
  have mem: "(''taxId'', taxId_patterns) \<in> set fieldPatterns"
    by (simp add: fieldPatterns_def)
  note inst = one_value_per_entity_type [of two_lines]
  from inst mem have "map_of (regex_pass two_lines) (fst (''taxId'', taxId_patterns)) =
      map_option (\<lambda>(p, m). regex_value p m)
        (first_match (snd (''taxId'', taxId_patterns)) two_lines)"
    by blast
  with fm have r: "map_of (regex_pass two_lines) ''taxId'' =
      Some (regex_value (taxId_patterns ! 1) \<lparr>m_whole = ''ein: 12'', m_groups = [(1, ''12'')]\<rparr>)"
    by simp
  with inst have "map_of (extractStructuredData two_lines) ''taxId'' =
      Some (regex_value (taxId_patterns ! 1) \<lparr>m_whole = ''ein: 12'', m_groups = [(1, ''12'')]\<rparr>)"
    by blast
  with inst fm r two_lines_all show ?thesis by simp
qed

section \<open>The search text of a field\<close>

lemma blank_symbols_chars:
  "c \<in> set (blank_symbols s) \<Longrightarrow> plain_char c \<or> is_space c"
  by (auto simp add: blank_symbols_def cls_matches_def citem_matches_def plain_char_def
      is_space_def split: if_splits)

lemma collapse_spaces_chars:
  "c \<in> set (collapse_spaces s) \<Longrightarrow> c = CHR '' '' \<or> (c \<in> set s \<and> \<not> is_space c)"
proof (induction s arbitrary: c rule: collapse_spaces.induct)
  case 1
  then show ?case by simp
next
  case (2 x xs)
  show ?case
  proof (cases "is_space x")
    case True
    with "2.prems" have "c = CHR '' '' \<or> c \<in> set (collapse_spaces (dropWhile is_space xs))"
      by simp
    with "2.IH"(1) [OF True] show ?thesis
      by (auto dest: set_dropWhileD)
  next
    case False
    with "2.prems" have "c = x \<or> c \<in> set (collapse_spaces xs)" by simp
    with "2.IH"(2) [OF False] False show ?thesis by auto
  qed
qed

lemma trim_chars:
  assumes "c \<in> set (trim s)"
  shows "c \<in> set s"
proof -
  from assms have "c \<in> set (dropWhile is_space (rev (dropWhile is_space s)))"
    by (simp add: trim_def)
  then have "c \<in> set (rev (dropWhile is_space s))" by (rule set_dropWhileD)
  then have "c \<in> set (dropWhile is_space s)" by simp
  then show ?thesis by (rule set_dropWhileD)
qed

lemma normalize_chars:
  assumes "c \<in> set (normalize s)"
  shows "plain_char c \<or> c = CHR '' ''"
proof -
  from assms have "c \<in> set (collapse_spaces (blank_symbols (toLowerCase s)))"
    unfolding normalize_def by (rule trim_chars)
  then have "c = CHR '' '' \<or> (c \<in> set (blank_symbols (toLowerCase s)) \<and> \<not> is_space c)"
    by (rule collapse_spaces_chars)
  then show ?thesis using blank_symbols_chars by blast
qed

lemma dropWhile_single_spaced: "single_spaced s \<Longrightarrow> single_spaced (dropWhile P s)"
  by (induction s rule: single_spaced.induct) auto

lemma single_spaced_snoc:
  "single_spaced (s @ [y]) \<longleftrightarrow> single_spaced s \<and> (s = [] \<or> \<not> (is_space (last s) \<and> is_space y))"
  by (induction s rule: single_spaced.induct) auto

lemma single_spaced_Cons:
  "single_spaced (x # s) \<longleftrightarrow> single_spaced s \<and> (s = [] \<or> \<not> (is_space x \<and> is_space (hd s)))"
  by (cases s) auto

lemma single_spaced_rev: "single_spaced (rev s) = single_spaced s"
proof (induction s)
  case Nil
  show ?case by simp
next
  case (Cons x s)
  show ?case
  proof (cases "s = []")
    case True
    then show ?thesis by simp
  next
    case False
    then have "last (rev s) = hd s" by (simp add: last_rev)
    with False Cons show ?thesis
      by (simp add: single_spaced_snoc single_spaced_Cons) blast
  qed
qed

lemma trim_single_spaced: "single_spaced s \<Longrightarrow> single_spaced (trim s)"
  by (simp add: trim_def single_spaced_rev dropWhile_single_spaced)

lemma collapse_spaces_head:
  "s \<noteq> [] \<Longrightarrow> \<not> is_space (hd s) \<Longrightarrow>
     collapse_spaces s \<noteq> [] \<and> \<not> is_space (hd (collapse_spaces s))"
  by (cases s) auto

lemma collapse_single_spaced: "single_spaced (collapse_spaces s)"
proof (induction s rule: collapse_spaces.induct)
  case 1
  show ?case by simp
next
  case (2 x xs)
  show ?case
  proof (cases "is_space x")
    case True
    let ?r = "dropWhile is_space xs"
    have ih: "single_spaced (collapse_spaces ?r)" by (rule "2.IH"(1) [OF True])
    show ?thesis
    proof (cases "?r = []")
      case True
      with \<open>is_space x\<close> have "collapse_spaces (x # xs) = [CHR '' '']"
        by (simp del: dropWhile_eq_Nil_conv)
      then show ?thesis by simp
    next
      case False
      then have "\<not> is_space (hd ?r)" by (rule hd_dropWhile)
      with False have "collapse_spaces ?r \<noteq> [] \<and> \<not> is_space (hd (collapse_spaces ?r))"
        by (rule collapse_spaces_head)
      with ih \<open>is_space x\<close> show ?thesis by (simp add: single_spaced_Cons)
    qed
  next
    case False
    with "2.IH"(2) [OF False] show ?thesis by (simp add: single_spaced_Cons)
  qed
qed

lemma normalize_single_spaced: "single_spaced (normalize s)"
  by (simp add: normalize_def trim_single_spaced collapse_single_spaced)

lemma trim_ends:
  assumes "trim s \<noteq> []"
  shows "\<not> is_space (hd (trim s)) \<and> \<not> is_space (last (trim s))"
proof -
  let ?a = "dropWhile is_space s"
  let ?b = "dropWhile is_space (rev ?a)"
  from assms have b: "?b \<noteq> []" by (simp add: trim_def)
  have a: "?a \<noteq> []"
  proof
    assume "?a = []"
    then have "?b = []" by (simp only: rev.simps dropWhile.simps)
    with b show False ..
  qed
  from b have "\<not> is_space (hd ?b)" by (rule hd_dropWhile)
  with b have l: "\<not> is_space (last (trim s))" by (simp add: trim_def last_rev)
  have "suffix ?b (rev ?a)" by (rule suffix_dropWhile)
  then obtain zs where "rev ?a = zs @ ?b" by (auto simp add: suffix_def)
  with b have "last ?b = last (rev ?a)" by (metis last_appendR)
  also from a have "\<dots> = hd ?a" by (simp add: last_rev)
  finally have "hd (trim s) = hd ?a" using b by (simp add: trim_def hd_rev)
  moreover from a have "\<not> is_space (hd ?a)" by (rule hd_dropWhile)
  ultimately show ?thesis using l by simp
qed

lemma buildSearchText_parts:
  "buildSearchText e label context =
     normalize (join (filter (\<lambda>part. trim part \<noteq> [])
       [el_name e, el_id e, el_placeholder e, label, context, el_className e,
        or_string (getAttribute e ''data-label'') [],
        or_string (getAttribute e ''aria-label'') [],
        or_string (getAttribute e ''title'') []]))"
proof -
  have "(part \<noteq> [] \<and> length (trim part) > 0) = (trim part \<noteq> [])" for part
    by (auto simp add: trim_def)
  then show ?thesis by (simp add: buildSearchText_def search_parts_def)
qed

text \<open>
  C6: \<^verbatim>\<open>buildSearchText\<close> is a function of the metadata alone: two elements that
  agree on name, id, placeholder and class name and on the attributes
  \<^verbatim>\<open>data-label\<close>, \<^verbatim>\<open>aria-label\<close> and \<^verbatim>\<open>title\<close> get the same search text
  for the same label and context, whatever else differs. The text is the normal form of
  the parts that are not blank, joined in the listed order: lower case letters, digits
  and single spaces only, with no space at either end.
\<close>

theorem search_text_function_of_metadata:
  "(el_name e1 = el_name e2 \<and> el_id e1 = el_id e2 \<and> el_placeholder e1 = el_placeholder e2
      \<and> el_className e1 = el_className e2
      \<and> (\<forall>a\<in>set [''data-label'', ''aria-label'', ''title'']. getAttribute e1 a = getAttribute e2 a)
     \<longrightarrow> buildSearchText e1 label context = buildSearchText e2 label context)
   \<and> buildSearchText e label context =
       normalize (join (filter (\<lambda>part. trim part \<noteq> [])
         [el_name e, el_id e, el_placeholder e, label, context, el_className e,
          or_string (getAttribute e ''data-label'') [],
          or_string (getAttribute e ''aria-label'') [],
          or_string (getAttribute e ''title'') []]))
   \<and> (\<forall>c\<in>set (buildSearchText e label context). plain_char c \<or> c = CHR '' '')
   \<and> single_spaced (buildSearchText e label context)
   \<and> (buildSearchText e label context \<noteq> [] \<longrightarrow>
        hd (buildSearchText e label context) \<noteq> CHR '' ''
        \<and> last (buildSearchText e label context) \<noteq> CHR '' '')"
proof (intro conjI impI ballI)
  assume "el_name e1 = el_name e2 \<and> el_id e1 = el_id e2 \<and> el_placeholder e1 = el_placeholder e2
      \<and> el_className e1 = el_className e2
      \<and> (\<forall>a\<in>set [''data-label'', ''aria-label'', ''title'']. getAttribute e1 a = getAttribute e2 a)"
  then have "search_parts e1 label context = search_parts e2 label context"
    by (simp add: search_parts_def)
  then show "buildSearchText e1 label context = buildSearchText e2 label context"
    by (simp add: buildSearchText_def)
next
  show "buildSearchText e label context =
       normalize (join (filter (\<lambda>part. trim part \<noteq> [])
         [el_name e, el_id e, el_placeholder e, label, context, el_className e,
          or_string (getAttribute e ''data-label'') [],
          or_string (getAttribute e ''aria-label'') [],
          or_string (getAttribute e ''title'') []]))"
    by (rule buildSearchText_parts)
next
  fix c
  assume "c \<in> set (buildSearchText e label context)"
  then show "plain_char c \<or> c = CHR '' ''"
    unfolding buildSearchText_def by (rule normalize_chars)
next
  show "single_spaced (buildSearchText e label context)"
    unfolding buildSearchText_def by (rule normalize_single_spaced)
next
  assume ne: "buildSearchText e label context \<noteq> []"
  then have "\<not> is_space (hd (buildSearchText e label context))
      \<and> \<not> is_space (last (buildSearchText e label context))"
    unfolding buildSearchText_def normalize_def by (rule trim_ends)
  then show "hd (buildSearchText e label context) \<noteq> CHR '' ''"
    and "last (buildSearchText e label context) \<noteq> CHR '' ''"
    by (auto simp add: is_space_def)
qed

lemma name_input_text:
  "buildSearchText name_input ''First Name:'' '''' =
     ''first name fn 1 first name form control big your name''"
  by code_simp

theorem search_text_function_of_metadata_witness:
  "buildSearchText other_input ''First Name:'' '''' =
     ''first name fn 1 first name form control big your name''
   \<and> el_value other_input \<noteq> el_value name_input
   \<and> getAttribute other_input ''maxlength'' \<noteq> getAttribute name_input ''maxlength''"
proof -
  have "buildSearchText name_input ''First Name:'' '''' =
      buildSearchText other_input ''First Name:'' ''''"
    using search_text_function_of_metadata [of name_input other_input "''First Name:''" "''''"]
    by (simp add: name_input_def other_input_def getAttribute_def)
  then show ?thesis
    using name_input_text by (simp add: name_input_def other_input_def getAttribute_def)
qed

end
